theory Spec2Isabelle
  imports Complex_Main "HOL-Library.Monad_Syntax"
begin

section \<open>Geometry: \<^verbatim>\<open>ElementRect\<close>\<close>

text \<open>
  Numbers. The source computes with JavaScript numbers. The model uses the rationals
  (\<^typ>\<open>rat\<close>): finite values with exact arithmetic. \<^verbatim>\<open>NaN\<close>, infinities and rounding
  are outside the model; on the integer and half-integer coordinates of the scenarios
  below the two agree.

  A \<^verbatim>\<open>DOMRectReadOnly\<close> is a record of eight numbers. The fields carry the prefix
  \<open>r_\<close> (\<open>top\<close> is a constant of HOL, and \<open>x\<close>, \<open>left\<close>, \<open>width\<close> are wanted as
  variable names): \<open>r_left\<close> is the source's \<^verbatim>\<open>left\<close>, and so on.
\<close>

record dom_rect =
  r_x :: rat
  r_y :: rat
  r_width :: rat
  r_height :: rat
  r_top :: rat
  r_bottom :: rat
  r_left :: rat
  r_right :: rat

text \<open>
  \<^verbatim>\<open>class ElementRect implements IElementRect\<close>: the bounding rectangle of an element,
  the element itself and the centre, which is again a \<^verbatim>\<open>DOMRectReadOnly\<close> (of width
  and height 0). TypeScript's structural typing lets an \<^verbatim>\<open>ElementRect\<close> be passed where
  a \<^verbatim>\<open>DOMRectReadOnly\<close> is expected; record extension does the same here.
\<close>

record 'e element_rect = dom_rect +
  element :: 'e
  center :: dom_rect

text \<open>\<^verbatim>\<open>ElementRect.getCenter\<close>: \<^verbatim>\<open>left + Math.floor(width / 2)\<close>, \<^verbatim>\<open>top + Math.floor(height / 2)\<close>.\<close>

definition getCenter :: "'a dom_rect_scheme \<Rightarrow> dom_rect" where
  "getCenter d =
     (let x = r_left d + of_int \<lfloor>r_width d / 2\<rfloor>;
          y = r_top d + of_int \<lfloor>r_height d / 2\<rfloor>
      in \<lparr>r_x = x, r_y = y, r_width = 0, r_height = 0,
          r_top = y, r_bottom = y, r_left = x, r_right = x\<rparr>)"

text \<open>
  The constructor \<^verbatim>\<open>new ElementRect(element)\<close> reads \<^verbatim>\<open>element.getBoundingClientRect()\<close>;
  the measurement is the parameter \<open>bcr\<close>.
\<close>

definition ElementRect :: "('e \<Rightarrow> dom_rect) \<Rightarrow> 'e \<Rightarrow> 'e element_rect" where
  "ElementRect bcr el =
     (let d = bcr el
      in \<lparr>r_x = r_x d, r_y = r_y d, r_width = r_width d, r_height = r_height d,
          r_top = r_top d, r_bottom = r_bottom d, r_left = r_left d, r_right = r_right d,
          element = el, center = getCenter d\<rparr>)"

text \<open>
  The eight distance functions. Each is a method bound to its instance (the first
  argument \<open>this\<close>) and takes the candidate rectangle.
\<close>

definition nearPlumbLineIsBetter :: "'e element_rect \<Rightarrow> 'e element_rect \<Rightarrow> rat" where
  "nearPlumbLineIsBetter this c =
     (let d = (if r_x (center c) < r_x (center this)
               then r_x (center this) - r_right c
               else r_left c - r_x (center this))
      in if d < 0 then 0 else d)"

definition nearHorizonIsBetter :: "'e element_rect \<Rightarrow> 'e element_rect \<Rightarrow> rat" where
  "nearHorizonIsBetter this c =
     (let d = (if r_y (center c) < r_y (center this)
               then r_y (center this) - r_bottom c
               else r_top c - r_y (center this))
      in if d < 0 then 0 else d)"

definition nearTargetLeftIsBetter :: "'e element_rect \<Rightarrow> 'e element_rect \<Rightarrow> rat" where
  "nearTargetLeftIsBetter this c =
     (let d = (if r_x (center c) < r_x (center this)
               then r_left this - r_right c
               else r_left c - r_left this)
      in if d < 0 then 0 else d)"

definition nearTargetTopIsBetter :: "'e element_rect \<Rightarrow> 'e element_rect \<Rightarrow> rat" where
  "nearTargetTopIsBetter this c =
     (let d = (if r_y (center c) < r_y (center this)
               then r_top this - r_bottom c
               else r_top c - r_top this)
      in if d < 0 then 0 else d)"

definition topIsBetter :: "'e element_rect \<Rightarrow> 'e element_rect \<Rightarrow> rat" where
  "topIsBetter this c = r_top c"

definition bottomIsBetter :: "'e element_rect \<Rightarrow> 'e element_rect \<Rightarrow> rat" where
  "bottomIsBetter this c = -1 * r_bottom c"

definition leftIsBetter :: "'e element_rect \<Rightarrow> 'e element_rect \<Rightarrow> rat" where
  "leftIsBetter this c = r_left c"

definition rightIsBetter :: "'e element_rect \<Rightarrow> 'e element_rect \<Rightarrow> rat" where
  "rightIsBetter this c = -1 * r_right c"

section \<open>\<^verbatim>\<open>Navigator.partition\<close>\<close>

text \<open>\<^verbatim>\<open>groups[i].push(rect)\<close> on the array of nine groups.\<close>

definition push :: "nat \<Rightarrow> 'a \<Rightarrow> 'a list list \<Rightarrow> 'a list list" where
  "push i rect groups = groups[i := groups ! i @ [rect]]"

text \<open>
  The group of a rectangle, from its centre: the three lines of the source
  \<^verbatim>\<open>x = rect.center.x < left ? 0 : rect.center.x <= right ? 1 : 2\<close>,
  \<^verbatim>\<open>y = rect.center.y < top ? 0 : rect.center.y <= bottom ? 1 : 2\<close>,
  \<^verbatim>\<open>groupId = y * 3 + x\<close>.
\<close>

definition groupIdOf :: "'a dom_rect_scheme \<Rightarrow> 'e element_rect \<Rightarrow> nat" where
  "groupIdOf targetRect rect =
     (let x = (if r_x (center rect) < r_left targetRect then 0
               else if r_x (center rect) \<le> r_right targetRect then 1 else 2);
          y = (if r_y (center rect) < r_top targetRect then 0
               else if r_y (center rect) \<le> r_bottom targetRect then 1 else 2)
      in y * 3 + x)"

text \<open>
  The body of the \<^verbatim>\<open>forEach\<close> callback: one rectangle is pushed to its group and, from
  a corner group, to the neighbouring groups whose edge test it passes. The four edges
  are computed once, before the loop.
\<close>

definition partitionStep ::
  "'a dom_rect_scheme \<Rightarrow> rat \<Rightarrow> rat \<Rightarrow> rat \<Rightarrow> rat \<Rightarrow>
   'e element_rect list list \<Rightarrow> 'e element_rect \<Rightarrow> 'e element_rect list list" where
  "partitionStep targetRect rightEdge leftEdge bottomEdge topEdge groups rect =
     (let groupId = groupIdOf targetRect rect;
          g0 = push groupId rect groups
      in if groupId \<in> set [0, 2, 6, 8] then
           (let g1 = (if r_left rect \<le> rightEdge
                      then (if 2 = groupId then push 1 rect g0
                            else if 8 = groupId then push 7 rect g0 else g0)
                      else g0);
                g2 = (if r_right rect \<ge> leftEdge
                      then (if 0 = groupId then push 1 rect g1
                            else if 6 = groupId then push 7 rect g1 else g1)
                      else g1);
                g3 = (if r_top rect \<le> bottomEdge
                      then (if 6 = groupId then push 3 rect g2
                            else if 8 = groupId then push 5 rect g2 else g2)
                      else g2);
                g4 = (if r_bottom rect \<ge> topEdge
                      then (if 0 = groupId then push 3 rect g3
                            else if 2 = groupId then push 5 rect g3 else g3)
                      else g3)
            in g4)
         else g0)"

text \<open>
  \<^verbatim>\<open>partition(rects, {width, height, top, bottom, left, right}, threshold = 0.5)\<close>.
  The threshold is optional: \<open>None\<close> is the argument \<^verbatim>\<open>undefined\<close>, which the default
  parameter replaces by \<open>0.5\<close>.
\<close>

definition partition_rects ::
  "'e element_rect list \<Rightarrow> 'a dom_rect_scheme \<Rightarrow> rat option \<Rightarrow> 'e element_rect list list" where
  "partition_rects rects targetRect thresholdArg =
     (let threshold = (case thresholdArg of None \<Rightarrow> 1 / 2 | Some t \<Rightarrow> t);
          groups = [[], [], [], [], [], [], [], [], []];
          rightEdge = r_right targetRect - r_width targetRect * threshold;
          leftEdge = r_left targetRect + r_width targetRect * threshold;
          bottomEdge = r_bottom targetRect - r_height targetRect * threshold;
          topEdge = r_top targetRect + r_height targetRect * threshold
      in foldl (partitionStep targetRect rightEdge leftEdge bottomEdge topEdge) groups rects)"

section \<open>Configuration\<close>

datatype Direction = UP | DOWN | LEFT | RIGHT

text \<open>The table \<^verbatim>\<open>REVERSE\<close>.\<close>

fun REVERSE :: "Direction \<Rightarrow> Direction" where
  "REVERSE UP = DOWN"
| "REVERSE DOWN = UP"
| "REVERSE LEFT = RIGHT"
| "REVERSE RIGHT = LEFT"

text \<open>The direction as the string the source concatenates to \<^verbatim>\<open>'data-sn-'\<close>.\<close>

fun directionName :: "Direction \<Rightarrow> string" where
  "directionName UP = ''up''"
| "directionName DOWN = ''down''"
| "directionName LEFT = ''left''"
| "directionName RIGHT = ''right''"

text \<open>
  \<^verbatim>\<open>restrict\<close> is compared with \<^verbatim>\<open>'self-only'\<close> and \<^verbatim>\<open>'self-first'\<close> only; every other
  value (the specification's \<^verbatim>\<open>'none'\<close>) takes the \<^verbatim>\<open>else\<close> branch.
\<close>

datatype Restrict = SELF_ONLY | SELF_FIRST | RESTRICT_NONE

datatype Priority = PRIORITY_NONE | LAST_FOCUSED | DEFAULT_ELEMENT

text \<open>
  \<^verbatim>\<open>ExtendedSelector = string | HTMLElement | HTMLCollectionOf<HTMLElement>\<close>. An entry
  of \<^verbatim>\<open>leaveFor\<close> is such a value or a function that returns one; the function is given
  by the value it returns (\<open>None\<close>: it returns \<^verbatim>\<open>undefined\<close> or \<^verbatim>\<open>null\<close>).
\<close>

datatype 'e ExtendedSelector = SelString string | SelElement 'e | SelCollection "'e list"

datatype 'e LeaveForEntry = Plain "'e ExtendedSelector" | Callback "'e ExtendedSelector option"

text \<open>\<^verbatim>\<open>PreviousFocus = {target, destination, reverse}\<close>.\<close>

record 'e PreviousFocus =
  pf_target :: 'e
  pf_destination :: 'e
  pf_reverse :: Direction

text \<open>
  \<^verbatim>\<open>NavConfig\<close>: the keys of \<^verbatim>\<open>INavigationConfig\<close> and \<^verbatim>\<open>previousFocus\<close>. The hooks
  \<^verbatim>\<open>onFocus\<close> and \<^verbatim>\<open>onBlur\<close> are callbacks of the application: the model records
  whether one is configured, and a call of it is an entry of the trace.
  \<^verbatim>\<open>navigableFilter\<close> is given by the truth value of \<^verbatim>\<open>filter(element) !== false\<close>.
  \<^verbatim>\<open>leaveFor\<close> is \<^verbatim>\<open>null\<close> (\<open>None\<close>) or a partial table over the directions.
\<close>

record 'e NavConfig =
  selector :: string
  straightOnly :: bool
  straightOverlapThreshold :: "rat option"
  rememberSource :: bool
  priority :: Priority
  leaveFor :: "(Direction \<Rightarrow> 'e LeaveForEntry option) option"
  restrict :: Restrict
  tabIndexIgnoreList :: string
  onFocus :: bool
  onBlur :: bool
  navigableFilter :: "('e \<Rightarrow> bool) option"
  previousFocus :: "'e PreviousFocus option"

section \<open>The elector: \<^verbatim>\<open>definePriorities\<close>, \<^verbatim>\<open>prioritize\<close>, \<^verbatim>\<open>navigate\<close>\<close>

text \<open>
  \<^verbatim>\<open>GroupPriorityType = {group, distanceMeters}\<close>; the field \<^verbatim>\<open>group\<close> is \<open>group_rects\<close> here
  (\<open>group\<close> is a constant of HOL).
\<close>

record 'e GroupPriorityType =
  group_rects :: "'e element_rect list"
  distanceMeters :: "('e element_rect \<Rightarrow> rat) list"

text \<open>
  \<^verbatim>\<open>definePriorities\<close>. An entry \<open>None\<close> is the \<^verbatim>\<open>undefined\<close> that \<^verbatim>\<open>straightOnly\<close> puts
  in the place of the third class. The \<^verbatim>\<open>default\<close> branch of the \<^verbatim>\<open>switch\<close> has no
  counterpart: \<^typ>\<open>Direction\<close> has the four values only. Both arrays of groups come from
  \<open>partition_rects\<close> and have nine entries.
\<close>

definition definePriorities ::
  "'e element_rect \<Rightarrow> Direction \<Rightarrow> 'e element_rect list list \<Rightarrow> 'e element_rect list list \<Rightarrow>
   bool \<Rightarrow> 'e GroupPriorityType option list" where
  "definePriorities targetRect direction groups internalGroups straightOnlyArg =
     (case direction of
        LEFT \<Rightarrow>
          [Some \<lparr>group_rects = internalGroups ! 0 @ internalGroups ! 3 @ internalGroups ! 6,
                 distanceMeters = [nearPlumbLineIsBetter targetRect, topIsBetter targetRect]\<rparr>,
           Some \<lparr>group_rects = groups ! 3,
                 distanceMeters = [nearPlumbLineIsBetter targetRect, topIsBetter targetRect]\<rparr>,
           if straightOnlyArg then None
           else Some \<lparr>group_rects = groups ! 0 @ groups ! 6,
                      distanceMeters = [nearHorizonIsBetter targetRect, rightIsBetter targetRect,
                                        nearTargetTopIsBetter targetRect]\<rparr>]
      | RIGHT \<Rightarrow>
          [Some \<lparr>group_rects = internalGroups ! 2 @ internalGroups ! 5 @ internalGroups ! 8,
                 distanceMeters = [nearPlumbLineIsBetter targetRect, topIsBetter targetRect]\<rparr>,
           Some \<lparr>group_rects = groups ! 5,
                 distanceMeters = [nearPlumbLineIsBetter targetRect, topIsBetter targetRect]\<rparr>,
           if straightOnlyArg then None
           else Some \<lparr>group_rects = groups ! 2 @ groups ! 8,
                      distanceMeters = [nearHorizonIsBetter targetRect, leftIsBetter targetRect,
                                        nearTargetTopIsBetter targetRect]\<rparr>]
      | UP \<Rightarrow>
          [Some \<lparr>group_rects = internalGroups ! 0 @ internalGroups ! 1 @ internalGroups ! 2,
                 distanceMeters = [nearHorizonIsBetter targetRect, leftIsBetter targetRect]\<rparr>,
           Some \<lparr>group_rects = groups ! 1,
                 distanceMeters = [nearHorizonIsBetter targetRect, leftIsBetter targetRect]\<rparr>,
           if straightOnlyArg then None
           else Some \<lparr>group_rects = groups ! 0 @ groups ! 2,
                      distanceMeters = [nearPlumbLineIsBetter targetRect, bottomIsBetter targetRect,
                                        nearTargetLeftIsBetter targetRect]\<rparr>]
      | DOWN \<Rightarrow>
          [Some \<lparr>group_rects = internalGroups ! 6 @ internalGroups ! 7 @ internalGroups ! 8,
                 distanceMeters = [nearHorizonIsBetter targetRect, leftIsBetter targetRect]\<rparr>,
           Some \<lparr>group_rects = groups ! 7,
                 distanceMeters = [nearHorizonIsBetter targetRect, leftIsBetter targetRect]\<rparr>,
           if straightOnlyArg then None
           else Some \<lparr>group_rects = groups ! 6 @ groups ! 8,
                      distanceMeters = [nearPlumbLineIsBetter targetRect, topIsBetter targetRect,
                                        nearTargetLeftIsBetter targetRect]\<rparr>])"

text \<open>
  The comparator of \<^verbatim>\<open>prioritize\<close>: the first meter whose difference
  \<^verbatim>\<open>distanceTo(a) - distanceTo(b)\<close> is not zero decides; \<open>0\<close> when all are equal.
\<close>

fun compareBy :: "('a \<Rightarrow> rat) list \<Rightarrow> 'a \<Rightarrow> 'a \<Rightarrow> rat" where
  "compareBy [] a b = 0"
| "compareBy (distanceTo # meters) a b =
     (let delta = distanceTo a - distanceTo b
      in if delta \<noteq> 0 then delta else compareBy meters a b)"

text \<open>
  \<^verbatim>\<open>Array.prototype.sort\<close> with a comparator is a stable sort (ECMAScript 2019); the
  model is the stable insertion sort: an element goes before the first one that it does
  not follow (\<open>cmp x y \<le> 0\<close>).
\<close>

fun insertSorted :: "('a \<Rightarrow> 'a \<Rightarrow> rat) \<Rightarrow> 'a \<Rightarrow> 'a list \<Rightarrow> 'a list" where
  "insertSorted cmp x [] = [x]"
| "insertSorted cmp x (y # ys) =
     (if cmp x y \<le> 0 then x # y # ys else y # insertSorted cmp x ys)"

definition sortStable :: "('a \<Rightarrow> 'a \<Rightarrow> rat) \<Rightarrow> 'a list \<Rightarrow> 'a list" where
  "sortStable cmp xs = foldr (insertSorted cmp) xs []"

text \<open>The loop of \<^verbatim>\<open>prioritize\<close>: the first class that is present and not empty.\<close>

fun destinationPriority :: "'e GroupPriorityType option list \<Rightarrow> 'e GroupPriorityType option" where
  "destinationPriority [] = None"
| "destinationPriority (None # priorities) = destinationPriority priorities"
| "destinationPriority (Some p # priorities) =
     (if group_rects p \<noteq> [] then Some p else destinationPriority priorities)"

definition prioritize :: "'e GroupPriorityType option list \<Rightarrow> 'e element_rect list option" where
  "prioritize priorities =
     (case destinationPriority priorities of
        None \<Rightarrow> None
      | Some p \<Rightarrow> Some (sortStable (compareBy (distanceMeters p)) (group_rects p)))"

text \<open>
  The local constant \<^verbatim>\<open>destinationGroup\<close> of \<^verbatim>\<open>navigate\<close>: the rectangles are measured
  (\<open>bcr\<close> is \<^verbatim>\<open>getBoundingClientRect\<close>), partitioned around the target, the group of the
  target again around its centre, and the first usable class is sorted.
\<close>

definition destinationGroup ::
  "('e \<Rightarrow> dom_rect) \<Rightarrow> 'e \<Rightarrow> Direction \<Rightarrow> 'e list \<Rightarrow> ('e, 'z) NavConfig_scheme \<Rightarrow>
   'e element_rect list option" where
  "destinationGroup bcr target direction candidates config =
     (let targetRect = ElementRect bcr target;
          candidatesRects = map (ElementRect bcr) candidates;
          groups = partition_rects candidatesRects targetRect (straightOverlapThreshold config);
          internalGroups =
            partition_rects (groups ! 4) (center targetRect) (straightOverlapThreshold config)
      in prioritize
           (definePriorities targetRect direction groups internalGroups (straightOnly config)))"

text \<open>
  \<^verbatim>\<open>navigate(target, direction, candidates, config)\<close>; \<open>None\<close> is \<^verbatim>\<open>undefined\<close>. The
  target is an element and the direction one of the four, so of the guard
  \<^verbatim>\<open>!target || !direction || !candidates || !candidates.length\<close> the empty list remains.
  The result is \<^verbatim>\<open>destination ?? destinationGroup[0].element\<close>; \<open>prioritize\<close> returns
  a group that is not empty (lemma \<open>prioritize_not_empty\<close> below), so the branch for
  \<open>[]\<close> is never taken.
\<close>

definition navigate ::
  "('e \<Rightarrow> dom_rect) \<Rightarrow> 'e \<Rightarrow> Direction \<Rightarrow> 'e list \<Rightarrow> ('e, 'z) NavConfig_scheme \<Rightarrow> 'e option" where
  "navigate bcr target direction candidates config =
     (if candidates = [] then None
      else case destinationGroup bcr target direction candidates config of
        None \<Rightarrow> None
      | Some sortedGroup \<Rightarrow>
          (let destination =
                 (case previousFocus config of
                    None \<Rightarrow> None
                  | Some pf \<Rightarrow>
                      if rememberSource config \<and> pf_destination pf = target \<and>
                         pf_reverse pf = direction
                      then map_option element (find (\<lambda>rect. element rect = pf_target pf) sortedGroup)
                      else None)
           in case destination of
                Some d \<Rightarrow> Some d
              | None \<Rightarrow> (case sortedGroup of [] \<Rightarrow> None | rect # _ \<Rightarrow> Some (element rect))))"

text \<open>The static \<^verbatim>\<open>Navigator.config\<close> as the source initialises it.\<close>

definition defaultConfig :: "'e NavConfig" where
  "defaultConfig =
     \<lparr>selector = [], straightOnly = False, straightOverlapThreshold = Some (1 / 2),
      rememberSource = True, priority = PRIORITY_NONE, leaveFor = None,
      restrict = SELF_FIRST,
      tabIndexIgnoreList = ''a, input, select, textarea, button, iframe, [contentEditable=true]'',
      onFocus = False, onBlur = False, navigableFilter = None, previousFocus = None\<rparr>"

text \<open>
  A \<^verbatim>\<open>DOMRect\<close> as the browser builds it from an origin and a size that is not negative:
  \<^verbatim>\<open>left = x\<close>, \<^verbatim>\<open>top = y\<close>, \<^verbatim>\<open>right = x + width\<close>, \<^verbatim>\<open>bottom = y + height\<close>. The boxes
  \<open>(x, y, width, height)\<close> of the scenarios are read this way.
\<close>

definition domRect :: "rat \<Rightarrow> rat \<Rightarrow> rat \<Rightarrow> rat \<Rightarrow> dom_rect" where
  "domRect x y w h =
     \<lparr>r_x = x, r_y = y, r_width = w, r_height = h,
      r_top = y, r_bottom = y + h, r_left = x, r_right = x + w\<rparr>"

text \<open>The layout of the first scenario: the boxes \<open>A\<close>, \<open>B\<close> and \<open>C\<close> in a row.\<close>

definition threeBoxes :: "string \<Rightarrow> dom_rect" where
  "threeBoxes e =
     (if e = ''A'' then domRect 0 0 50 50
      else if e = ''B'' then domRect 100 0 50 50
      else domRect 200 0 50 50)"

section \<open>The partition as the specification words it\<close>

text \<open>
  The specification's column and row of a candidate \<open>c\<close> against the reference, its
  primary group \<open>row * 3 + column\<close>, and the spill rule: with the four edges at the
  threshold fraction inside the reference, \<open>specSpill ref threshold c g\<close> says that
  \<open>c\<close> is copied from its primary group into the group \<open>g\<close>.
\<close>

definition specColumn :: "'a dom_rect_scheme \<Rightarrow> 'e element_rect \<Rightarrow> nat" where
  "specColumn ref c =
     (if r_x (center c) < r_left ref then 0
      else if r_x (center c) \<le> r_right ref then 1 else 2)"

definition specRow :: "'a dom_rect_scheme \<Rightarrow> 'e element_rect \<Rightarrow> nat" where
  "specRow ref c =
     (if r_y (center c) < r_top ref then 0
      else if r_y (center c) \<le> r_bottom ref then 1 else 2)"

definition specPrimary :: "'a dom_rect_scheme \<Rightarrow> 'e element_rect \<Rightarrow> nat" where
  "specPrimary ref c = specRow ref c * 3 + specColumn ref c"

definition specSpill :: "'a dom_rect_scheme \<Rightarrow> rat \<Rightarrow> 'e element_rect \<Rightarrow> nat \<Rightarrow> bool" where
  "specSpill ref threshold c g =
     (let leftEdge = r_left ref + r_width ref * threshold;
          rightEdge = r_right ref - r_width ref * threshold;
          topEdge = r_top ref + r_height ref * threshold;
          bottomEdge = r_bottom ref - r_height ref * threshold;
          p = specPrimary ref c
      in (r_left c \<le> rightEdge \<and> (p, g) \<in> {(2, 1), (8, 7)}) \<or>
         (r_right c \<ge> leftEdge \<and> (p, g) \<in> {(0, 1), (6, 7)}) \<or>
         (r_top c \<le> bottomEdge \<and> (p, g) \<in> {(6, 3), (8, 5)}) \<or>
         (r_bottom c \<ge> topEdge \<and> (p, g) \<in> {(0, 3), (2, 5)}))"

text \<open>
  The same membership with the four edges as parameters, as \<open>partitionStep\<close> receives
  them: the rectangle \<open>c\<close> is pushed to the group \<open>g\<close>.
\<close>

definition stepMember ::
  "'a dom_rect_scheme \<Rightarrow> rat \<Rightarrow> rat \<Rightarrow> rat \<Rightarrow> rat \<Rightarrow> 'e element_rect \<Rightarrow> nat \<Rightarrow> bool" where
  "stepMember ref rE lE bE tE c g =
     (let p = specPrimary ref c
      in g = p \<or>
         (r_left c \<le> rE \<and> (p, g) \<in> {(2, 1), (8, 7)}) \<or>
         (r_right c \<ge> lE \<and> (p, g) \<in> {(0, 1), (6, 7)}) \<or>
         (r_top c \<le> bE \<and> (p, g) \<in> {(6, 3), (8, 5)}) \<or>
         (r_bottom c \<ge> tE \<and> (p, g) \<in> {(0, 3), (2, 5)}))"

section \<open>The page and the state\<close>

text \<open>
  The page is a parameter of the model: what the DOM answers for an element. Elements
  are values of a type \<open>'e\<close>; identity of elements (\<^verbatim>\<open>===\<close>) is equality.
  \<^item> \<open>querySelectorAll\<close> and \<open>matches\<close> are total: selector strings are taken to be valid
    CSS, so that neither throws. (\<^verbatim>\<open>selectElements\<close> catches what \<^verbatim>\<open>querySelectorAll\<close>
    throws and returns \<^verbatim>\<open>undefined\<close>; that path is outside the model.)
  \<^item> \<open>getAttribute\<close> is \<open>None\<close> for \<^verbatim>\<open>null\<close>; \<^verbatim>\<open>hasAttribute\<close> is derived from it.
  \<^item> \<open>cancelled type el\<close> says that a listener of the application calls
    \<^verbatim>\<open>preventDefault\<close> on the event \<open>type\<close> dispatched at \<open>el\<close>. Listeners and the
    hooks \<^verbatim>\<open>onFocus\<close>, \<^verbatim>\<open>onBlur\<close> of the application do nothing else in the model: they
    do not call the navigator and do not change the page.
  \<^item> every element can take the focus (\<^verbatim>\<open>makeFocusable\<close> gives the elements of a
    section a tab index).
\<close>

record 'e Page =
  querySelectorAll :: "string \<Rightarrow> 'e list"
  matches :: "'e \<Rightarrow> string \<Rightarrow> bool"
  offsetWidth :: "'e \<Rightarrow> int"
  offsetHeight :: "'e \<Rightarrow> int"
  getAttribute :: "'e \<Rightarrow> string \<Rightarrow> string option"
  classListContains :: "'e \<Rightarrow> string \<Rightarrow> bool"
  getBoundingClientRect :: "'e \<Rightarrow> dom_rect"
  cancelled :: "string \<Rightarrow> 'e \<Rightarrow> bool"

definition hasAttribute :: "'e Page \<Rightarrow> 'e \<Rightarrow> string \<Rightarrow> bool" where
  "hasAttribute page el name = (getAttribute page el name \<noteq> None)"

text \<open>
  What a call does that can be observed from outside, in the order it happens:
  an event dispatched by \<^verbatim>\<open>fireEvent\<close> (its full type, its target, whether it is
  cancelable; the \<^verbatim>\<open>detail\<close> is not recorded), a call of \<^verbatim>\<open>blur()\<close> or \<^verbatim>\<open>focus()\<close> on
  an element, a focus handed to \<^verbatim>\<open>requestAnimationFrame\<close>, a refocus handed to
  \<^verbatim>\<open>setTimeout\<close>, and a call of a section's \<^verbatim>\<open>onBlur\<close> or \<^verbatim>\<open>onFocus\<close> hook (by the key of
  the section).
\<close>

datatype 'e Action =
    Dispatch string 'e bool
  | CallBlur 'e
  | CallFocus 'e
  | RequestAnimationFrame 'e
  | SetTimeout 'e
  | HookOnBlur string
  | HookOnFocus string

text \<open>
  \<^verbatim>\<open>class NavSection\<close>: the configuration keys, the private \<^verbatim>\<open>id\<close> (here \<open>sid\<close>; \<open>id\<close> is
  a constant of HOL) and \<^verbatim>\<open>disabled\<close>, \<^verbatim>\<open>defaultElementSelector\<close> and
  \<^verbatim>\<open>lastFocusedElement\<close>. The constructor stores the selector as a string, and it
  leaves \<^verbatim>\<open>id\<close> unassigned (\<open>None\<close>) when it is given no id that is truthy.
\<close>

record 'e NavSection = "'e NavConfig" +
  sid :: "string option"
  disabled :: bool
  defaultElementSelector :: string
  lastFocusedElement :: "'e option"

text \<open>
  The state: the fields of \<^verbatim>\<open>Navigator\<close> that the modelled methods read or write, the
  static \<^verbatim>\<open>Navigator.config\<close>, the focused element of the document
  (\<^verbatim>\<open>document.activeElement\<close> when it is an element other than \<^verbatim>\<open>body\<close>) and the trace.
  \<^verbatim>\<open>sections\<close> is an object used as a dictionary; the model is the list of its entries
  in the order in which \<^verbatim>\<open>for (const id in this.sections)\<close> enumerates them, with
  distinct keys; a lookup \<^verbatim>\<open>this.sections[id]\<close> is \<open>map_of\<close>.
\<close>

record 'e State =
  ready :: bool
  paused :: bool
  duringFocusChange :: bool
  sections :: "(string \<times> 'e NavSection) list"
  sectionCount :: int
  defaultSectionId :: string
  lastSectionId :: string
  navigatorConfig :: "'e NavConfig"
  activeElement :: "'e option"
  trace :: "'e Action list"

text \<open>A string in a condition: the empty string is falsy.\<close>

definition truthy :: "string \<Rightarrow> bool" where
  "truthy s = (s \<noteq> [])"

text \<open>An assignment to a field of \<^verbatim>\<open>this.sections[id]\<close>.\<close>

fun updateSection ::
  "string \<Rightarrow> ('e NavSection \<Rightarrow> 'e NavSection) \<Rightarrow> (string \<times> 'e NavSection) list \<Rightarrow>
   (string \<times> 'e NavSection) list" where
  "updateSection k f [] = []"
| "updateSection k f ((k', s) # rest) =
     (if k' = k then (k', f s) # rest else (k', s) # updateSection k f rest)"

definition record_action :: "'e Action \<Rightarrow> 'e State \<Rightarrow> 'e State" where
  "record_action a st = st\<lparr>trace := trace st @ [a]\<rparr>"

text \<open>
  \<^verbatim>\<open>this.sections\<close> is created as \<^verbatim>\<open>{}\<close>, so a property read \<^verbatim>\<open>this.sections[id]\<close> that
  finds no section of that key goes on to \<^verbatim>\<open>Object.prototype\<close>. These are the names it
  finds there, as the language defines that object (none of them is enumerable, so a
  \<^verbatim>\<open>for\<close>-\<^verbatim>\<open>in\<close> loop does not see them; \<^verbatim>\<open>addSection\<close> refuses each of them as the id of a
  section). Under \<^verbatim>\<open>__proto__\<close> the read gives \<^verbatim>\<open>Object.prototype\<close> itself, under the others
  a function: in every case an object that is no section and has none of a section's
  methods or hooks.
\<close>

definition objectPrototypeKeys :: "string list" where
  "objectPrototypeKeys =
     [''constructor'', ''hasOwnProperty'', ''isPrototypeOf'', ''propertyIsEnumerable'',
      ''toLocaleString'', ''toString'', ''valueOf'', ''__proto__'',
      ''__defineGetter__'', ''__defineSetter__'', ''__lookupGetter__'', ''__lookupSetter__'']"

text \<open>
  What the property read \<^verbatim>\<open>this.sections[id]\<close> gives: the section of that key, an object
  inherited from \<^verbatim>\<open>Object.prototype\<close>, or \<^verbatim>\<open>undefined\<close>.
\<close>

datatype 'e Property = OwnSection "'e NavSection" | InheritedValue | UndefinedValue

definition sectionAt :: "(string \<times> 'e NavSection) list \<Rightarrow> string \<Rightarrow> 'e Property" where
  "sectionAt secs k =
     (case map_of secs k of
        Some sec \<Rightarrow> OwnSection sec
      | None \<Rightarrow> if k \<in> set objectPrototypeKeys then InheritedValue else UndefinedValue)"

section \<open>\<^verbatim>\<open>utils\<close>\<close>

text \<open>
  \<^verbatim>\<open>selectElements(selector)\<close> for a string: \<^verbatim>\<open>undefined\<close> (\<open>None\<close>) for the empty string,
  else the matches in document order.
\<close>

definition selectElements :: "'e Page \<Rightarrow> string \<Rightarrow> 'e list option" where
  "selectElements page sel = (if truthy sel then Some (querySelectorAll page sel) else None)"

text \<open>
  \<^verbatim>\<open>fireEvent(element, type, detail, cancelable = true)\<close>: \<^verbatim>\<open>dispatchEvent\<close> returns
  \<^verbatim>\<open>false\<close> when the event is cancelable and a listener has cancelled it.
\<close>

definition fireEvent :: "'e Page \<Rightarrow> 'e State \<Rightarrow> 'e \<Rightarrow> string \<Rightarrow> bool \<Rightarrow> bool \<times> 'e State" where
  "fireEvent page st el type cancelable =
     (\<not> (cancelable \<and> cancelled page type el),
      record_action (Dispatch (''sn:'' @ type) el cancelable) st)"

text \<open>
  \<^verbatim>\<open>exclude(items, excluded)\<close> removes, for each excluded value in turn, its first
  occurrence (\<^verbatim>\<open>indexOf\<close>, \<^verbatim>\<open>splice\<close>). It works in place and returns \<^verbatim>\<open>items\<close>: a caller
  that reads the array again reads the result.
\<close>

definition exclude :: "'a list \<Rightarrow> 'a list \<Rightarrow> 'a list" where
  "exclude items excluded = foldl (\<lambda>xs e. remove1 e xs) items excluded"

section \<open>\<^verbatim>\<open>NavSection\<close>: the predicates\<close>

text \<open>\<^verbatim>\<open>match(element)\<close>: the selector of a section is a string.\<close>

definition match :: "'e Page \<Rightarrow> ('e, 'z) NavSection_scheme \<Rightarrow> 'e \<Rightarrow> bool" where
  "match page sec el = matches page el (selector sec)"

text \<open>
  \<^verbatim>\<open>isNavigable(element, verifySectionSelector)\<close>. The element may be \<^verbatim>\<open>undefined\<close>
  (\<open>None\<close>). \<open>globalConfig\<close> is \<^verbatim>\<open>Navigator.config\<close>, whose filter is asked when the
  section has none.
\<close>

definition isNavigable ::
  "'e Page \<Rightarrow> 'e NavConfig \<Rightarrow> ('e, 'z) NavSection_scheme \<Rightarrow> 'e option \<Rightarrow> bool \<Rightarrow> bool" where
  "isNavigable page globalConfig sec elementArg verifySectionSelector =
     (case elementArg of
        None \<Rightarrow> False
      | Some el \<Rightarrow>
          if disabled sec then False
          else if (offsetWidth page el \<le> 0 \<and> offsetHeight page el \<le> 0) \<or>
                  hasAttribute page el ''disabled'' then False
          else if verifySectionSelector \<and> \<not> match page sec el then False
          else (case navigableFilter sec of
                  Some f \<Rightarrow> f el
                | None \<Rightarrow>
                    (case navigableFilter globalConfig of
                       Some f \<Rightarrow> f el
                     | None \<Rightarrow> True)))"

definition getDefaultElement ::
  "'e Page \<Rightarrow> 'e NavConfig \<Rightarrow> ('e, 'z) NavSection_scheme \<Rightarrow> 'e option" where
  "getDefaultElement page globalConfig sec =
     (if truthy (defaultElementSelector sec)
      then (case selectElements page (defaultElementSelector sec) of
              None \<Rightarrow> None
            | Some els \<Rightarrow> find (\<lambda>el. isNavigable page globalConfig sec (Some el) True) els)
      else None)"

definition getNavigableElements ::
  "'e Page \<Rightarrow> 'e NavConfig \<Rightarrow> ('e, 'z) NavSection_scheme \<Rightarrow> 'e list" where
  "getNavigableElements page globalConfig sec =
     (if disabled sec \<or> \<not> truthy (selector sec) then []
      else filter (\<lambda>el. isNavigable page globalConfig sec (Some el) False)
             (querySelectorAll page (selector sec)))"

definition getLastFocusedElement ::
  "'e Page \<Rightarrow> 'e NavConfig \<Rightarrow> ('e, 'z) NavSection_scheme \<Rightarrow> 'e option" where
  "getLastFocusedElement page globalConfig sec =
     (if isNavigable page globalConfig sec (lastFocusedElement sec) True
      then lastFocusedElement sec else None)"

text \<open>\<^verbatim>\<open>a || b\<close> on elements.\<close>

definition orElse :: "'a option \<Rightarrow> 'a option \<Rightarrow> 'a option" where
  "orElse a b = (case a of Some x \<Rightarrow> Some x | None \<Rightarrow> b)"

definition getPrimaryElement ::
  "'e Page \<Rightarrow> 'e NavConfig \<Rightarrow> ('e, 'z) NavSection_scheme \<Rightarrow> 'e option" where
  "getPrimaryElement page globalConfig sec =
     (case priority sec of
        LAST_FOCUSED \<Rightarrow>
          orElse (getLastFocusedElement page globalConfig sec)
                 (getDefaultElement page globalConfig sec)
      | DEFAULT_ELEMENT \<Rightarrow> getDefaultElement page globalConfig sec
      | PRIORITY_NONE \<Rightarrow> None)"

text \<open>\<^verbatim>\<open>savePreviousFocus(target, destination, reverse)\<close>.\<close>

definition savePreviousFocus ::
  "'e \<Rightarrow> 'e \<Rightarrow> Direction \<Rightarrow> 'e NavSection \<Rightarrow> 'e NavSection" where
  "savePreviousFocus target destination reverse sec =
     sec\<lparr>previousFocus :=
            Some \<lparr>pf_target = target, pf_destination = destination, pf_reverse = reverse\<rparr>\<rparr>"

text \<open>
  \<^verbatim>\<open>getLeaveForAt(direction)\<close>: the entry of \<^verbatim>\<open>leaveFor\<close>, called when it is a function;
  \<open>None\<close> is \<^verbatim>\<open>undefined\<close>.
\<close>

definition getLeaveForAt :: "('e, 'z) NavSection_scheme \<Rightarrow> Direction \<Rightarrow> 'e ExtendedSelector option" where
  "getLeaveForAt sec direction =
     (case leaveFor sec of
        None \<Rightarrow> None
      | Some table \<Rightarrow>
          (case table direction of
             None \<Rightarrow> None
           | Some (Callback result) \<Rightarrow> result
           | Some (Plain sel) \<Rightarrow> Some sel))"

section \<open>\<^verbatim>\<open>Navigator\<close>: the focus change\<close>

text \<open>
  A method that changes the state returns its result and the new state. An uncaught
  \<^verbatim>\<open>TypeError\<close> (a property read on \<^verbatim>\<open>undefined\<close>) is the result \<open>None\<close>; the state at a
  throw is not kept.
\<close>

text \<open>
  \<^verbatim>\<open>getSectionId(element)\<close>: the key of the first section, in enumeration order, that is
  not disabled and matches; \<open>None\<close> is \<^verbatim>\<open>undefined\<close>.
\<close>

fun getSectionId :: "'e Page \<Rightarrow> (string \<times> 'e NavSection) list \<Rightarrow> 'e \<Rightarrow> string option" where
  "getSectionId page [] el = None"
| "getSectionId page ((k, sec) # rest) el =
     (if \<not> disabled sec \<and> match page sec el then Some k else getSectionId page rest el)"

text \<open>\<^verbatim>\<open>if (sectionId)\<close> on the result of \<^verbatim>\<open>getSectionId\<close>.\<close>

definition truthyId :: "string option \<Rightarrow> bool" where
  "truthyId sidOpt = (case sidOpt of None \<Rightarrow> False | Some k \<Rightarrow> truthy k)"

text \<open>
  A value of type \<^verbatim>\<open>string | undefined\<close> used as a property key or passed on as a
  section id: \<^verbatim>\<open>this.sections[undefined]\<close> reads the key \<^verbatim>\<open>'undefined'\<close>, and a callee
  tests the id for truth only, where \<^verbatim>\<open>undefined\<close> and \<^verbatim>\<open>''\<close> agree.
\<close>

definition keyOf :: "string option \<Rightarrow> string" where
  "keyOf sidOpt = (case sidOpt of None \<Rightarrow> ''undefined'' | Some k \<Rightarrow> k)"

definition idArg :: "string option \<Rightarrow> string" where
  "idArg sidOpt = (case sidOpt of None \<Rightarrow> [] | Some k \<Rightarrow> k)"

text \<open>
  \<^verbatim>\<open>focusChanged(element, sectionId)\<close>. The assignment to
  \<^verbatim>\<open>this.sections[sectionId].lastFocusedElement\<close> throws when the property read gives
  \<^verbatim>\<open>undefined\<close>. On an inherited object the assignment succeeds and no section
  changes; the object has no \<^verbatim>\<open>onFocus\<close>, so \<^verbatim>\<open>?.()\<close> calls nothing, and the method goes
  on to set \<^verbatim>\<open>lastSectionId\<close>. (The property that the assignment adds to the inherited
  object is not part of the state; what an enumerable property on \<^verbatim>\<open>Object.prototype\<close>
  does to later \<^verbatim>\<open>for\<close>-\<^verbatim>\<open>in\<close> loops is outside the model.) In the same way
  \<^verbatim>\<open>this.sections[this.lastSectionId]?.onBlur?.()\<close> calls a hook only when the read gives
  a section.
\<close>

definition focusChanged :: "'e Page \<Rightarrow> 'e State \<Rightarrow> 'e \<Rightarrow> string \<Rightarrow> 'e State option" where
  "focusChanged page st el sectionIdArg =
     (let sectionId = (if \<not> truthy sectionIdArg then getSectionId page (sections st) el
                       else Some sectionIdArg)
      in if truthyId sectionId then
           (let k = keyOf sectionId in
            case sectionAt (sections st) k of
              UndefinedValue \<Rightarrow> None
            | found \<Rightarrow>
                (let st1 = (case found of
                              OwnSection sec \<Rightarrow>
                                st\<lparr>sections :=
                                     updateSection k (\<lambda>s. s\<lparr>lastFocusedElement := Some el\<rparr>)
                                       (sections st)\<rparr>
                            | _ \<Rightarrow> st);
                     st2 = (if lastSectionId st1 \<noteq> k then
                              (let st1a = (case sectionAt (sections st1) (lastSectionId st1) of
                                             OwnSection lastSec \<Rightarrow>
                                               if onBlur lastSec
                                               then record_action (HookOnBlur (lastSectionId st1)) st1
                                               else st1
                                           | _ \<Rightarrow> st1)
                               in case found of
                                    OwnSection sec \<Rightarrow>
                                      if onFocus sec then record_action (HookOnFocus k) st1a
                                      else st1a
                                  | _ \<Rightarrow> st1a)
                            else st1)
                 in Some (st2\<lparr>lastSectionId := k\<rparr>)))
         else Some st)"

text \<open>\<^verbatim>\<open>beforeFocusChanged(focusedElement, nextSectionId)\<close>, for an element.\<close>

definition beforeFocusChanged :: "'e Page \<Rightarrow> 'e State \<Rightarrow> 'e \<Rightarrow> string \<Rightarrow> 'e State" where
  "beforeFocusChanged page st focusedElement nextSectionId =
     (let sectionId = getSectionId page (sections st) focusedElement
      in if truthyId sectionId \<and> keyOf sectionId \<noteq> nextSectionId then
           (case map_of (sections st) (keyOf sectionId) of
              None \<Rightarrow> st
            | Some sec \<Rightarrow> if onBlur sec then record_action (HookOnBlur (keyOf sectionId)) st else st)
         else st)"

subsection \<open>The listeners of the navigator for the native events\<close>

text \<open>
  \<^verbatim>\<open>init()\<close> attaches \<^verbatim>\<open>onFocus\<close> and \<^verbatim>\<open>onBlur\<close> to the window in the capture phase, so
  a \<^verbatim>\<open>blur()\<close> or \<^verbatim>\<open>focus()\<close> that the navigator calls on an element runs them
  synchronously while \<^verbatim>\<open>ready\<close> is set. Both are modelled for a target that is an element.

  \<^verbatim>\<open>Navigator.onBlur\<close>. The callback handed to \<^verbatim>\<open>setTimeout\<close> runs after the call and is
  an entry of the trace.
\<close>

definition Navigator_onBlur :: "'e Page \<Rightarrow> 'e State \<Rightarrow> 'e \<Rightarrow> 'e State" where
  "Navigator_onBlur page st target =
     (let sectionId = getSectionId page (sections st) target
      in if \<not> paused st \<and> sectionCount st \<noteq> 0 \<and> \<not> duringFocusChange st \<and> truthyId sectionId then
           (case fireEvent page st target ''will-unfocus'' True of
              (ok, st1) \<Rightarrow>
                if \<not> ok then record_action (SetTimeout target) (st1\<lparr>duringFocusChange := True\<rparr>)
                else snd (fireEvent page st1 target ''unfocused'' False))
         else st)"

text \<open>
  \<^verbatim>\<open>element.blur()\<close>: when the element has the focus it loses it and the \<^verbatim>\<open>blur\<close> event
  reaches the listener; otherwise nothing happens.
\<close>

definition elementBlur :: "'e Page \<Rightarrow> 'e State \<Rightarrow> 'e \<Rightarrow> 'e State" where
  "elementBlur page st el =
     (let st1 = record_action (CallBlur el) st
      in if activeElement st1 = Some el then
           (let st2 = st1\<lparr>activeElement := None\<rparr>
            in if ready st2 then Navigator_onBlur page st2 el else st2)
         else st1)"

text \<open>\<^verbatim>\<open>Navigator.onFocus\<close>, for a target that is an element.\<close>

definition Navigator_onFocus :: "'e Page \<Rightarrow> 'e State \<Rightarrow> 'e \<Rightarrow> 'e State option" where
  "Navigator_onFocus page st target =
     (if sectionCount st \<noteq> 0 \<and> \<not> duringFocusChange st then
        (let sectionId = getSectionId page (sections st) target
         in if truthyId sectionId then
              (if paused st then focusChanged page st target (keyOf sectionId)
               else (case fireEvent page st target ''will-focus'' True of
                       (ok, st1) \<Rightarrow>
                         if \<not> ok then
                           (let st2 = st1\<lparr>duringFocusChange := True\<rparr>;
                                st3 = elementBlur page st2 target
                            in Some (st3\<lparr>duringFocusChange := False\<rparr>))
                         else
                           (let st2 = snd (fireEvent page st1 target ''focused'' False)
                            in focusChanged page st2 target (keyOf sectionId))))
            else Some st)
      else Some st)"

text \<open>
  \<^verbatim>\<open>element.focus()\<close>: nothing happens when the element has the focus already; otherwise
  the element that has it loses it (its \<^verbatim>\<open>blur\<close> event reaches the listener), the
  element becomes the active one and its \<^verbatim>\<open>focus\<close> event reaches the listener.
\<close>

definition elementFocus :: "'e Page \<Rightarrow> 'e State \<Rightarrow> 'e \<Rightarrow> 'e State option" where
  "elementFocus page st el =
     (let st1 = record_action (CallFocus el) st
      in if activeElement st1 = Some el then Some st1
         else
           (let st2 = (case activeElement st1 of
                         None \<Rightarrow> st1
                       | Some old \<Rightarrow>
                           (let st1a = st1\<lparr>activeElement := None\<rparr>
                            in if ready st1a then Navigator_onBlur page st1a old else st1a));
                st3 = st2\<lparr>activeElement := Some el\<rparr>
            in if ready st3 then Navigator_onFocus page st3 el else Some st3))"

text \<open>
  \<^verbatim>\<open>smartFocus(element)\<close>, for an element: the focus of an element of the class
  \<^verbatim>\<open>non-scrollable\<close> is handed to \<^verbatim>\<open>requestAnimationFrame\<close> and happens after the call.
\<close>

definition smartFocus :: "'e Page \<Rightarrow> 'e State \<Rightarrow> 'e \<Rightarrow> 'e State option" where
  "smartFocus page st el =
     (if classListContains page el ''non-scrollable''
      then Some (record_action (RequestAnimationFrame el) st)
      else elementFocus page st el)"

subsection \<open>\<^verbatim>\<open>focusElement\<close>\<close>

text \<open>\<^verbatim>\<open>getFocusedElement()\<close>.\<close>

definition getFocusedElement :: "'e State \<Rightarrow> 'e option" where
  "getFocusedElement st = activeElement st"

text \<open>
  The closure \<^verbatim>\<open>silentFocus\<close> of \<^verbatim>\<open>focusElement\<close>; \<open>focusedElement\<close> is the constant it
  captures.
\<close>

definition silentFocus ::
  "'e Page \<Rightarrow> 'e State \<Rightarrow> 'e option \<Rightarrow> 'e \<Rightarrow> string \<Rightarrow> 'e State option" where
  "silentFocus page st focusedElement el sectionId =
     (let st1 = (case focusedElement of
                   None \<Rightarrow> st
                 | Some f \<Rightarrow> beforeFocusChanged page (elementBlur page st f) f sectionId)
      in case smartFocus page st1 el of
           None \<Rightarrow> None
         | Some st2 \<Rightarrow> focusChanged page st2 el sectionId)"

text \<open>
  The block \<^verbatim>\<open>if (focusedElement) { ... }\<close> of \<^verbatim>\<open>focusElement\<close>: \<open>(False, st')\<close> when
  \<^verbatim>\<open>will-unfocus\<close> was cancelled, \<open>(True, st')\<close> when the method goes on.
\<close>

definition unfocusCurrent ::
  "'e Page \<Rightarrow> 'e State \<Rightarrow> 'e option \<Rightarrow> string \<Rightarrow> bool \<times> 'e State" where
  "unfocusCurrent page st focusedElement sectionId =
     (case focusedElement of
        None \<Rightarrow> (True, st)
      | Some f \<Rightarrow>
          (case fireEvent page st f ''will-unfocus'' True of
             (ok, st1) \<Rightarrow>
               if \<not> ok then (False, st1)
               else
                 (let st2 = elementBlur page st1 f;
                      st3 = beforeFocusChanged page st2 f sectionId
                  in (True, snd (fireEvent page st3 f ''unfocused'' False)))))"

text \<open>
  \<^verbatim>\<open>focusElement(element, sectionId, direction)\<close>. The element may be \<^verbatim>\<open>undefined\<close>
  (\<open>None\<close>); the section id is a string, \<open>[]\<close> also standing for \<^verbatim>\<open>undefined\<close>, which the
  method and its callees do not tell apart. The direction goes into the \<^verbatim>\<open>detail\<close> of the
  events only.
\<close>

definition focusElement ::
  "'e Page \<Rightarrow> 'e State \<Rightarrow> 'e option \<Rightarrow> string \<Rightarrow> Direction option \<Rightarrow> (bool \<times> 'e State) option" where
  "focusElement page st elementArg sectionId direction =
     (case elementArg of
        None \<Rightarrow> Some (False, st)
      | Some el \<Rightarrow>
          (let focusedElement = getFocusedElement st
           in if duringFocusChange st then
                (case silentFocus page st focusedElement el sectionId of
                   None \<Rightarrow> None
                 | Some st1 \<Rightarrow> Some (True, st1))
              else
                (let st0 = st\<lparr>duringFocusChange := True\<rparr>
                 in if paused st0 then
                      (case silentFocus page st0 focusedElement el sectionId of
                         None \<Rightarrow> None
                       | Some st1 \<Rightarrow> Some (True, st1\<lparr>duringFocusChange := False\<rparr>))
                    else
                      (case unfocusCurrent page st0 focusedElement sectionId of
                         (False, st1) \<Rightarrow> Some (False, st1\<lparr>duringFocusChange := False\<rparr>)
                       | (True, st4) \<Rightarrow>
                           (case fireEvent page st4 el ''will-focus'' True of
                              (ok, st5) \<Rightarrow>
                                if \<not> ok then Some (False, st5\<lparr>duringFocusChange := False\<rparr>)
                                else
                                  (case smartFocus page st5 el of
                                     None \<Rightarrow> None
                                   | Some st6 \<Rightarrow>
                                       (let st7 = snd (fireEvent page st6 el ''focused'' False);
                                            st8 = st7\<lparr>duringFocusChange := False\<rparr>
                                        in case focusChanged page st8 el sectionId of
                                             None \<Rightarrow> None
                                           | Some st9 \<Rightarrow> Some (True, st9))))))))"

section \<open>Focusing a section\<close>

text \<open>\<^verbatim>\<open>items[0]\<close>: the first element, or \<^verbatim>\<open>undefined\<close>.\<close>

definition firstOf :: "'a list \<Rightarrow> 'a option" where
  "firstOf xs = (case xs of [] \<Rightarrow> None | x # _ \<Rightarrow> Some x)"

text \<open>\<^verbatim>\<open>findSection(element)\<close>: \<^verbatim>\<open>this.sections[this.getSectionId(element)]\<close>.\<close>

definition findSection :: "'e Page \<Rightarrow> 'e State \<Rightarrow> 'e \<Rightarrow> 'e NavSection option" where
  "findSection page st el = map_of (sections st) (keyOf (getSectionId page (sections st) el))"

text \<open>
  \<^verbatim>\<open>NavSection.focus()\<close>. A call that falls off the end returns \<^verbatim>\<open>undefined\<close>, which
  its only caller tests for truth: the model returns \<open>False\<close>. The section id passed on is
  \<^verbatim>\<open>this.navigator.findSection(element)?.getId() ?? this.id\<close>.
\<close>

definition NavSection_focus ::
  "'e Page \<Rightarrow> 'e State \<Rightarrow> 'e NavSection \<Rightarrow> (bool \<times> 'e State) option" where
  "NavSection_focus page st this =
     (if disabled this then Some (False, st)
      else
        (let g = navigatorConfig st;
             el = (if priority this = LAST_FOCUSED
                   then orElse (getLastFocusedElement page g this)
                          (orElse (getDefaultElement page g this)
                             (firstOf (getNavigableElements page g this)))
                   else orElse (getDefaultElement page g this)
                          (orElse (getLastFocusedElement page g this)
                             (firstOf (getNavigableElements page g this))))
         in case el of
              None \<Rightarrow> Some (False, st)
            | Some e \<Rightarrow>
                focusElement page st (Some e)
                  (idArg (case findSection page st e of
                            Some sec \<Rightarrow> orElse (sid sec) (sid this)
                          | None \<Rightarrow> sid this))
                  None))"

text \<open>
  The closure \<^verbatim>\<open>addRange\<close> of \<^verbatim>\<open>focusSection\<close>, with the array it pushes to. The
  condition is \<^verbatim>\<open>id && range.indexOf(id) === -1 && this.sections[id] &&
  !this.sections[id].isDisabled()\<close>: an inherited object is truthy and has no method
  \<^verbatim>\<open>isDisabled\<close>, so the call throws (\<open>None\<close>).
\<close>

definition addRange :: "'e State \<Rightarrow> string list \<Rightarrow> string \<Rightarrow> string list option" where
  "addRange st ids k =
     (if truthy k \<and> k \<notin> set ids then
        (case sectionAt (sections st) k of
           UndefinedValue \<Rightarrow> Some ids
         | InheritedValue \<Rightarrow> None
         | OwnSection sec \<Rightarrow> Some (if \<not> disabled sec then ids @ [k] else ids))
      else Some ids)"

text \<open>\<^verbatim>\<open>Object.keys(this.sections).map(addRange)\<close>: the keys of the sections, in order.\<close>

fun addRanges :: "'e State \<Rightarrow> string list \<Rightarrow> string list \<Rightarrow> string list option" where
  "addRanges st ids [] = Some ids"
| "addRanges st ids (k # ks) =
     (case addRange st ids k of
        None \<Rightarrow> None
      | Some ids1 \<Rightarrow> addRanges st ids1 ks)"

text \<open>The array \<^verbatim>\<open>range\<close> that \<^verbatim>\<open>focusSection(sectionId)\<close> builds.\<close>

definition focusRange :: "'e State \<Rightarrow> string \<Rightarrow> string list option" where
  "focusRange st sectionId =
     (if truthy sectionId then addRange st [] sectionId
      else
        (case (if truthy (defaultSectionId st) then addRange st [] (defaultSectionId st)
               else Some []) of
           None \<Rightarrow> None
         | Some r1 \<Rightarrow>
             (case (if truthy (lastSectionId st) then addRange st r1 (lastSectionId st)
                    else Some r1) of
                None \<Rightarrow> None
              | Some r2 \<Rightarrow>
                  if sectionCount st > 0 then addRanges st r2 (map fst (sections st))
                  else Some r2)))"

text \<open>
  The loop \<^verbatim>\<open>for (const id of range) if (this.sections[id].focus()) return true\<close>; each
  attempt starts in the state the one before has left. The range holds keys of sections;
  a read that gave anything else would have no method \<^verbatim>\<open>focus\<close>, and the call would throw.
\<close>

fun focusFirst :: "'e Page \<Rightarrow> 'e State \<Rightarrow> string list \<Rightarrow> (bool \<times> 'e State) option" where
  "focusFirst page st [] = Some (False, st)"
| "focusFirst page st (k # ks) =
     (case map_of (sections st) k of
        None \<Rightarrow> None
      | Some sec \<Rightarrow>
          (case NavSection_focus page st sec of
             None \<Rightarrow> None
           | Some (ok, st1) \<Rightarrow> if ok then Some (True, st1) else focusFirst page st1 ks))"

definition focusSection :: "'e Page \<Rightarrow> 'e State \<Rightarrow> string \<Rightarrow> (bool \<times> 'e State) option" where
  "focusSection page st sectionId =
     (case focusRange st sectionId of
        None \<Rightarrow> None
      | Some ids \<Rightarrow> focusFirst page st ids)"

text \<open>
  \<^verbatim>\<open>focusExtendedSelector(selector, direction)\<close> for a string, the only kind of selector
  that the modelled callers pass. \<^verbatim>\<open>selectElements(selector)[0]\<close> throws for the empty
  string, for which \<^verbatim>\<open>selectElements\<close> returns \<^verbatim>\<open>undefined\<close>.
\<close>

definition focusExtendedSelector ::
  "'e Page \<Rightarrow> 'e State \<Rightarrow> string \<Rightarrow> Direction option \<Rightarrow> (bool \<times> 'e State) option" where
  "focusExtendedSelector page st sel direction =
     (if take 1 sel = ''@'' then
        (if length sel = 1 then focusSection page st [] else focusSection page st (drop 1 sel))
      else
        (case selectElements page sel of
           None \<Rightarrow> None
         | Some els \<Rightarrow>
             (case firstOf els of
                None \<Rightarrow> Some (False, st)
              | Some el \<Rightarrow>
                  (let sectionId = getSectionId page (sections st) el
                   in if truthyId sectionId then
                        (case map_of (sections st) (keyOf sectionId) of
                           None \<Rightarrow> None
                         | Some sec \<Rightarrow>
                             if isNavigable page (navigatorConfig st) sec (Some el) False
                             then focusElement page st (Some el) (keyOf sectionId) direction
                             else Some (False, st))
                      else Some (False, st)))))"

text \<open>
  \<^verbatim>\<open>NavSection.gotoLeaveFor(direction)\<close>. The result is \<^verbatim>\<open>boolean | undefined\<close>: \<open>None\<close> is
  \<^verbatim>\<open>undefined\<close>. The hook \<^verbatim>\<open>this.onBlur\<close> is recorded under the section's own id, which is
  its key for a section that \<^verbatim>\<open>addSection\<close> has made.
\<close>

definition gotoLeaveFor ::
  "'e Page \<Rightarrow> 'e State \<Rightarrow> 'e NavSection \<Rightarrow> Direction \<Rightarrow> (bool option \<times> 'e State) option" where
  "gotoLeaveFor page st this direction =
     (case getLeaveForAt this direction of
        Some (SelString sel) \<Rightarrow>
          if sel = [] then Some (None, st)
          else
            (case focusExtendedSelector page st sel (Some direction) of
               None \<Rightarrow> None
             | Some (result, st1) \<Rightarrow>
                 if result
                 then Some (Some True,
                            if onBlur this then record_action (HookOnBlur (idArg (sid this))) st1
                            else st1)
                 else Some (Some False, st1))
      | _ \<Rightarrow> Some (Some False, st))"

section \<open>\<^verbatim>\<open>focusNext\<close>\<close>

definition fireNavigateFailed :: "'e Page \<Rightarrow> 'e State \<Rightarrow> 'e \<Rightarrow> Direction \<Rightarrow> bool \<times> 'e State" where
  "fireNavigateFailed page st el direction =
     (False, snd (fireEvent page st el ''navigate-failed'' False))"

text \<open>
  The election of \<^verbatim>\<open>focusNext\<close>: the value of \<^verbatim>\<open>nextElement\<close> after the \<^verbatim>\<open>if\<close> on
  \<^verbatim>\<open>config.restrict\<close> (\<open>Some None\<close>: nothing elected; \<open>None\<close>: a \<^verbatim>\<open>TypeError\<close>).
  \<^verbatim>\<open>Object.assign({}, Navigator.config, this.sections[currentSectionId])\<close> has every key
  from the section, which owns all the keys of \<^verbatim>\<open>Navigator.config\<close>; without the section
  it is \<^verbatim>\<open>Navigator.config\<close>, and \<^verbatim>\<open>exclude\<close> then throws on the missing array.
  \<^verbatim>\<open>exclude\<close> has removed the focused element from \<^verbatim>\<open>currentSectionNavigableElements\<close>
  when that array is excluded from all the navigable elements.
\<close>

definition electNext ::
  "'e Page \<Rightarrow> 'e State \<Rightarrow> Direction \<Rightarrow> 'e \<Rightarrow> string \<Rightarrow> 'e option option" where
  "electNext page st direction focusedElement currentSectionId =
     (let g = navigatorConfig st;
          bcr = getBoundingClientRect page;
          sectionsNavigableElements =
            map (\<lambda>(k, sec). (k, getNavigableElements page g sec)) (sections st);
          allNavigableElements = concat (map snd sectionsNavigableElements)
      in case map_of (sections st) currentSectionId of
           None \<Rightarrow>
             if restrict g = SELF_ONLY \<or> restrict g = SELF_FIRST then None
             else Some (navigate bcr focusedElement direction
                          (exclude allNavigableElements [focusedElement]) g)
         | Some config \<Rightarrow>
             if restrict config = SELF_ONLY \<or> restrict config = SELF_FIRST then
               (case map_of sectionsNavigableElements currentSectionId of
                  None \<Rightarrow> None
                | Some navigableElements \<Rightarrow>
                    (let currentSectionNavigableElements = exclude navigableElements [focusedElement];
                         nextElement = navigate bcr focusedElement direction
                                         currentSectionNavigableElements config
                     in if nextElement = None \<and> restrict config = SELF_FIRST
                        then Some (navigate bcr focusedElement direction
                                     (exclude allNavigableElements currentSectionNavigableElements)
                                     config)
                        else Some nextElement))
             else Some (navigate bcr focusedElement direction
                          (exclude allNavigableElements [focusedElement]) config))"

text \<open>
  The result handling of \<^verbatim>\<open>focusNext\<close>, from \<^verbatim>\<open>if (nextElement)\<close> on. Every branch
  reads \<^verbatim>\<open>this.sections[currentSectionId]\<close> first and throws without it.
\<close>

definition handleElected ::
  "'e Page \<Rightarrow> 'e State \<Rightarrow> Direction \<Rightarrow> 'e \<Rightarrow> string \<Rightarrow> 'e option \<Rightarrow> (bool \<times> 'e State) option" where
  "handleElected page st direction focusedElement currentSectionId elected =
     (case map_of (sections st) currentSectionId of
        None \<Rightarrow> None
      | Some current \<Rightarrow>
          (case elected of
             Some nextElement \<Rightarrow>
               (let st1 = st\<lparr>sections :=
                              updateSection currentSectionId
                                (savePreviousFocus focusedElement nextElement (REVERSE direction))
                                (sections st)\<rparr>;
                    nextSectionId = getSectionId page (sections st1) nextElement
                in if Some currentSectionId \<noteq> nextSectionId then
                     (case map_of (sections st1) currentSectionId of
                        None \<Rightarrow> None
                      | Some this \<Rightarrow>
                          (case gotoLeaveFor page st1 this direction of
                             None \<Rightarrow> None
                           | Some (Some True, st2) \<Rightarrow> Some (True, st2)
                           | Some (None, st2) \<Rightarrow>
                               Some (fireNavigateFailed page st2 focusedElement direction)
                           | Some (Some False, st2) \<Rightarrow>
                               (case map_of (sections st2) (keyOf nextSectionId) of
                                  None \<Rightarrow> None
                                | Some nextSection \<Rightarrow>
                                    (let enterToElement =
                                           getPrimaryElement page (navigatorConfig st2) nextSection
                                     in focusElement page st2
                                          (Some (case enterToElement of
                                                   Some e \<Rightarrow> e
                                                 | None \<Rightarrow> nextElement))
                                          (idArg nextSectionId) (Some direction)))))
                   else focusElement page st1 (Some nextElement) (idArg nextSectionId)
                          (Some direction))
           | None \<Rightarrow>
               (case gotoLeaveFor page st current direction of
                  None \<Rightarrow> None
                | Some (result, st1) \<Rightarrow>
                    if result = Some True then Some (True, st1)
                    else Some (fireNavigateFailed page st1 focusedElement direction))))"

text \<open>\<^verbatim>\<open>focusNext(direction, focusedElement, currentSectionId)\<close>.\<close>

definition focusNext ::
  "'e Page \<Rightarrow> 'e State \<Rightarrow> Direction \<Rightarrow> 'e \<Rightarrow> string \<Rightarrow> (bool \<times> 'e State) option" where
  "focusNext page st direction focusedElement currentSectionId =
     (case getAttribute page focusedElement (''data-sn-'' @ directionName direction) of
        Some extSelector \<Rightarrow>
          if extSelector = [] then Some (fireNavigateFailed page st focusedElement direction)
          else
            (case focusExtendedSelector page st extSelector (Some direction) of
               None \<Rightarrow> None
             | Some (ok, st1) \<Rightarrow>
                 if \<not> ok then Some (fireNavigateFailed page st1 focusedElement direction)
                 else Some (True, st1))
      | None \<Rightarrow>
          (case electNext page st direction focusedElement currentSectionId of
             None \<Rightarrow> None
           | Some elected \<Rightarrow>
               handleElected page st direction focusedElement currentSectionId elected))"

section \<open>Describing the trace\<close>

text \<open>The kinds of entries: an event of \<^verbatim>\<open>fireEvent\<close>, and a call of a section hook.\<close>

fun isDispatch :: "'e Action \<Rightarrow> bool" where
  "isDispatch (Dispatch type el cancelable) = True"
| "isDispatch a = False"

fun isHook :: "'e Action \<Rightarrow> bool" where
  "isHook (HookOnBlur k) = True"
| "isHook (HookOnFocus k) = True"
| "isHook a = False"

text \<open>
  The hook that \<^verbatim>\<open>beforeFocusChanged\<close> calls, as a list of at most one entry: the
  \<^verbatim>\<open>onBlur\<close> of the section of the element that loses the focus, when that section is
  not the one the focus goes to.
\<close>

definition blurHooks ::
  "'e Page \<Rightarrow> (string \<times> 'e NavSection) list \<Rightarrow> 'e \<Rightarrow> string \<Rightarrow> 'e Action list" where
  "blurHooks page secs focusedElement nextSectionId =
     (let sectionId = getSectionId page secs focusedElement
      in if truthyId sectionId \<and> keyOf sectionId \<noteq> nextSectionId then
           (case map_of secs (keyOf sectionId) of
              None \<Rightarrow> []
            | Some sec \<Rightarrow> if onBlur sec then [HookOnBlur (keyOf sectionId)] else [])
         else [])"

text \<open>
  The hooks that \<^verbatim>\<open>focusChanged\<close> calls when the section \<open>k\<close> takes over from the last
  active one: the \<^verbatim>\<open>onBlur\<close> of the last active section, then the \<^verbatim>\<open>onFocus\<close> of \<open>k\<close>.
\<close>

definition changeHooks :: "(string \<times> 'e NavSection) list \<Rightarrow> string \<Rightarrow> string \<Rightarrow> 'e Action list" where
  "changeHooks secs lastId k =
     (if lastId \<noteq> k then
        (case map_of secs lastId of
           None \<Rightarrow> []
         | Some lastSec \<Rightarrow> if onBlur lastSec then [HookOnBlur lastId] else []) @
        (case map_of secs k of
           None \<Rightarrow> []
         | Some sec \<Rightarrow> if onFocus sec then [HookOnFocus k] else [])
      else [])"

text \<open>The section id that \<^verbatim>\<open>focusChanged\<close> works with: the argument, or the section found.\<close>

definition resolvedSectionId :: "'e Page \<Rightarrow> 'e State \<Rightarrow> 'e \<Rightarrow> string \<Rightarrow> string option" where
  "resolvedSectionId page st el sectionIdArg =
     (if \<not> truthy sectionIdArg then getSectionId page (sections st) el else Some sectionIdArg)"

section \<open>Concrete layouts\<close>

text \<open>
  A reference box \<open>A\<close>, a box \<open>D\<close> below and to the right of it whose left edge reaches
  under the left half of \<open>A\<close>, and a box \<open>C\<close> straight to the right.
\<close>

definition spillBoxes :: "string \<Rightarrow> dom_rect" where
  "spillBoxes e =
     (if e = ''A'' then domRect 0 0 50 50
      else if e = ''D'' then domRect 20 60 80 50
      else domRect 200 0 50 50)"

text \<open>
  The configuration of a move to the left out of \<open>C\<close>, after a move to the right
  from \<open>A\<close> has elected \<open>C\<close>: the defaults and the record of that move.
\<close>

definition cfgBack :: "string NavConfig" where
  "cfgBack =
     defaultConfig
       \<lparr>previousFocus := Some \<lparr>pf_target = ''A'', pf_destination = ''C'', pf_reverse = LEFT\<rparr>\<rparr>"

text \<open>
  A page with two sections: the elements \<open>a\<close>, \<open>a2\<close> match the selector \<open>.s1\<close> and lie
  at the boxes \<open>A\<close> and \<open>B\<close> of the row, the element \<open>c\<close> matches \<open>.s2\<close> and lies at
  \<open>C\<close>. The element \<open>flat\<close> is 0 wide and 10 high, the element \<open>gone\<close> is 0 by 0, the
  element \<open>off\<close> carries the attribute \<open>disabled\<close>, and the element \<open>stop\<close> carries an
  empty \<open>data-sn-right\<close>. No listener cancels an event.
\<close>

definition twoSections :: "string Page" where
  "twoSections =
     \<lparr>querySelectorAll = (\<lambda>sel. if sel = ''.s1'' then [''a'', ''a2'']
                                else if sel = ''.s2'' then [''c''] else []),
      matches = (\<lambda>el sel. (sel = ''.s1'' \<and> (el = ''a'' \<or> el = ''a2'')) \<or>
                           (sel = ''.s2'' \<and> el = ''c'')),
      offsetWidth = (\<lambda>el. if el = ''flat'' \<or> el = ''gone'' then 0 else 50),
      offsetHeight = (\<lambda>el. if el = ''gone'' then 0 else if el = ''flat'' then 10 else 50),
      getAttribute = (\<lambda>el name. if el = ''off'' \<and> name = ''disabled'' then Some ''true''
                                  else if el = ''stop'' \<and> name = ''data-sn-right'' then Some []
                                  else None),
      classListContains = (\<lambda>el name. False),
      getBoundingClientRect =
        (\<lambda>el. if el = ''a'' then domRect 0 0 50 50
              else if el = ''a2'' then domRect 100 0 50 50
              else domRect 200 0 50 50),
      cancelled = (\<lambda>type el. False)\<rparr>"

text \<open>
  A section as the constructor makes it from the defaults, with a selector, a
  restriction and the two hooks configured.
\<close>

definition mkSection :: "string \<Rightarrow> string \<Rightarrow> Restrict \<Rightarrow> string NavSection" where
  "mkSection k sel r =
     \<lparr>selector = sel, straightOnly = False, straightOverlapThreshold = Some (1 / 2),
      rememberSource = True, priority = PRIORITY_NONE, leaveFor = None, restrict = r,
      tabIndexIgnoreList = ''a, input, select, textarea, button, iframe, [contentEditable=true]'',
      onFocus = True, onBlur = True, navigableFilter = None, previousFocus = None,
      sid = Some k, disabled = False, defaultElementSelector = ''.default-focus'',
      lastFocusedElement = None\<rparr>"

text \<open>
  The navigator after \<open>init()\<close> with the sections \<open>s1\<close> and \<open>s2\<close>, the element \<open>el\<close>
  focused and \<open>s1\<close> the last active section.
\<close>

definition twoSectionState :: "Restrict \<Rightarrow> string \<Rightarrow> string State" where
  "twoSectionState r el =
     \<lparr>ready = True, paused = False, duringFocusChange = False,
      sections = [(''s1'', mkSection ''s1'' ''.s1'' r), (''s2'', mkSection ''s2'' ''.s2'' r)],
      sectionCount = 2, defaultSectionId = [], lastSectionId = ''s1'',
      navigatorConfig = defaultConfig, activeElement = Some el, trace = []\<rparr>"

text \<open>The same navigator inside a focus change: the guard is set.\<close>

definition reentrantState :: "string State" where
  "reentrantState = (twoSectionState SELF_FIRST ''a'')\<lparr>duringFocusChange := True\<rparr>"

text \<open>The section \<open>s1\<close> with one entry of \<open>leaveFor\<close>, for the direction \<open>right\<close>.\<close>

definition leavingSection :: "string LeaveForEntry \<Rightarrow> string NavSection" where
  "leavingSection entry =
     (mkSection ''s1'' ''.s1'' SELF_FIRST)
       \<lparr>leaveFor := Some (\<lambda>d. if d = RIGHT then Some entry else None)\<rparr>"

text \<open>
  What is observed of a call: its result, the trace, the focused element and the
  guard.
\<close>

definition observe ::
  "(bool \<times> 'e State) option \<Rightarrow> (bool \<times> 'e Action list \<times> 'e option \<times> bool) option" where
  "observe outcome =
     map_option (\<lambda>(result, st). (result, trace st, activeElement st, duringFocusChange st))
       outcome"


section \<open>Properties of the partition\<close>

lemma length_push: "length (push i r gs) = length gs"
  by (simp add: push_def)

lemma nth_push:
  "j < length gs \<Longrightarrow> push i r gs ! j = gs ! j @ (if i = j then [r] else [])"
  by (simp add: push_def nth_list_update)

lemma groupIdOf_spec: "groupIdOf ref c = specPrimary ref c"
  by (simp add: groupIdOf_def specPrimary_def specRow_def specColumn_def)

lemma specPrimary_cases: "specPrimary ref c \<in> {0, 1, 2, 3, 4, 5, 6, 7, 8}"
  by (simp add: specPrimary_def specRow_def specColumn_def)

lemma length_partitionStep:
  "length (partitionStep ref rE lE bE tE gs c) = length gs"
  by (simp add: partitionStep_def Let_def length_push)

text \<open>One step of the loop appends the rectangle to exactly the groups it is a member of.\<close>

lemma nth_partitionStep:
  assumes "length gs = 9" "g < 9"
  shows "partitionStep ref rE lE bE tE gs c ! g =
         gs ! g @ (if stepMember ref rE lE bE tE c g then [c] else [])"
proof -
  have "specPrimary ref c \<in> {0, 1, 2, 3, 4, 5, 6, 7, 8}"
    by (rule specPrimary_cases)
  then consider "specPrimary ref c = 0" | "specPrimary ref c = 1" | "specPrimary ref c = 2"
    | "specPrimary ref c = 3" | "specPrimary ref c = 4" | "specPrimary ref c = 5"
    | "specPrimary ref c = 6" | "specPrimary ref c = 7" | "specPrimary ref c = 8"
    by auto
  then show ?thesis
    using assms
    by cases
      (simp_all add: partitionStep_def groupIdOf_spec stepMember_def Let_def nth_push length_push)
qed

lemma foldl_partitionStep:
  "length gs = 9 \<Longrightarrow> g < 9 \<Longrightarrow>
   foldl (partitionStep ref rE lE bE tE) gs rects ! g =
   gs ! g @ filter (\<lambda>c. stepMember ref rE lE bE tE c g) rects"
  by (induction rects arbitrary: gs) (simp_all add: nth_partitionStep length_partitionStep)

lemma length_foldl_partitionStep:
  "length (foldl (partitionStep ref rE lE bE tE) gs rects) = length gs"
  by (induction rects arbitrary: gs) (simp_all add: length_partitionStep)

lemma stepMember_spec:
  "stepMember ref (r_right ref - r_width ref * th) (r_left ref + r_width ref * th)
     (r_bottom ref - r_height ref * th) (r_top ref + r_height ref * th) c g
   = (g = specPrimary ref c \<or> specSpill ref th c g)"
  by (simp add: stepMember_def specSpill_def Let_def)

lemma partition_rects_nth:
  fixes rects :: "'e element_rect list"
  assumes "g < 9"
  shows "partition_rects rects ref (Some th) ! g =
         filter (\<lambda>c. g = specPrimary ref c \<or> specSpill ref th c g) rects"
proof -
  let ?init = "[[], [], [], [], [], [], [], [], []::'e element_rect list]"
  have len: "length ?init = 9" by simp
  from assms
  have "g = 0 \<or> g = 1 \<or> g = 2 \<or> g = 3 \<or> g = 4 \<or> g = 5 \<or> g = 6 \<or> g = 7 \<or> g = 8"
    by arith
  then have init: "?init ! g = []" by auto
  show ?thesis
    unfolding partition_rects_def Let_def option.case
    by (subst foldl_partitionStep [OF len assms]) (simp add: init stepMember_spec)
qed

lemma partition_rects_default:
  "partition_rects rects ref None = partition_rects rects ref (Some (1 / 2))"
  by (simp add: partition_rects_def)

lemma length_partition_rects: "length (partition_rects rects ref ta) = 9"
  by (simp add: partition_rects_def Let_def length_foldl_partitionStep)

lemma upt_9: "[0..<9] = [0, 1, 2, 3, 4, 5, 6, 7, 8]"
  by (simp add: upt_rec)

text \<open>A rectangle is a member of at most three of the nine groups.\<close>

lemma memberships_le_3:
  "length (filter (\<lambda>g. g = specPrimary ref c \<or> specSpill ref th c g) [0..<9]) \<le> 3"
proof -
  have "specPrimary ref c \<in> {0, 1, 2, 3, 4, 5, 6, 7, 8}"
    by (rule specPrimary_cases)
  then consider "specPrimary ref c = 0" | "specPrimary ref c = 1" | "specPrimary ref c = 2"
    | "specPrimary ref c = 3" | "specPrimary ref c = 4" | "specPrimary ref c = 5"
    | "specPrimary ref c = 6" | "specPrimary ref c = 7" | "specPrimary ref c = 8"
    by auto
  then show ?thesis
    by cases (simp_all add: upt_9 specSpill_def Let_def)
qed

lemma sum_filter_swap:
  "sum_list (map (\<lambda>g. length (filter (\<lambda>c. P c g) rects)) gs) =
   sum_list (map (\<lambda>c. length (filter (P c) gs)) rects)"
proof (induction rects)
  case Nil
  then show ?case by (induction gs) simp_all
next
  case (Cons c rects)
  have "sum_list (map (\<lambda>g. length (filter (\<lambda>c. P c g) (c # rects))) gs) =
        length (filter (P c) gs) + sum_list (map (\<lambda>g. length (filter (\<lambda>c. P c g) rects)) gs)"
    by (induction gs) simp_all
  with Cons show ?case by simp
qed

lemma sum_list_bounded:
  "(\<And>x. x \<in> set xs \<Longrightarrow> f x \<le> (k::nat)) \<Longrightarrow> sum_list (map f xs) \<le> k * length xs"
  by (induction xs) (simp_all add: add_mono)

lemma partition_rects_total:
  "sum_list (map length (partition_rects rects ref (Some th))) \<le> 3 * length rects"
proof -
  let ?gs = "partition_rects rects ref (Some th)"
  let ?P = "\<lambda>c g. g = specPrimary ref c \<or> specSpill ref th c g"
  have "?gs = map (\<lambda>g. ?gs ! g) [0..<9]"
    using length_partition_rects [of rects ref "Some th"] map_nth [of ?gs] by simp
  also have "\<dots> = map (\<lambda>g. filter (\<lambda>c. ?P c g) rects) [0..<9]"
    by (rule map_cong) (simp_all add: partition_rects_nth)
  finally have "sum_list (map length ?gs) =
      sum_list (map (\<lambda>g. length (filter (\<lambda>c. ?P c g) rects)) [0..<9])"
    by (simp add: comp_def)
  also have "\<dots> = sum_list (map (\<lambda>c. length (filter (?P c) [0..<9])) rects)"
    by (rule sum_filter_swap)
  also have "\<dots> \<le> 3 * length rects"
    by (rule sum_list_bounded) (rule memberships_le_3)
  finally show ?thesis .
qed

text \<open>
  Claim C1. For every call \<open>partition(rects, ref, threshold)\<close> (the threshold \<open>th\<close> is
  the argument, or \<open>0.5\<close> when it is left out): there are nine groups; the group \<open>g\<close>
  holds, in the order of the input, exactly the rectangles whose primary group
  (row times three plus column, from the centre) is \<open>g\<close> or that spill into \<open>g\<close>; a
  rectangle has one primary group, which is below nine, and it spills only from a corner
  group \<open>0, 2, 6, 8\<close> under the edge condition of that pair of groups, and only into one
  of the groups \<open>1, 3, 5, 7\<close>; and the memberships over all groups number at most three
  times the rectangles.
\<close>

theorem partition_assignment:
  fixes rects :: "'e element_rect list"
  assumes "th = (case thresholdArg of None \<Rightarrow> 1 / 2 | Some t \<Rightarrow> t)"
  shows "length (partition_rects rects ref thresholdArg) = 9 \<and>
         (\<forall>g<9. partition_rects rects ref thresholdArg ! g =
                 filter (\<lambda>c. g = specPrimary ref c \<or> specSpill ref th c g) rects) \<and>
         (\<forall>c::'e element_rect. specPrimary ref c < 9 \<and>
              (\<forall>g. specSpill ref th c g \<longrightarrow>
                   specPrimary ref c \<in> {0, 2, 6, 8} \<and> g \<in> {1, 3, 5, 7})) \<and>
         sum_list (map length (partition_rects rects ref thresholdArg)) \<le> 3 * length rects"
proof -
  have eq: "partition_rects rects ref thresholdArg = partition_rects rects ref (Some th)"
    by (cases thresholdArg) (simp_all only: assms option.case partition_rects_default)
  have prim: "specPrimary ref c < 9" for c :: "'e element_rect"
    using specPrimary_cases [of ref c] by auto
  have spill: "specPrimary ref c \<in> {0, 2, 6, 8} \<and> g \<in> {1, 3, 5, 7}"
    if "specSpill ref th c g" for c :: "'e element_rect" and g
    using that by (auto simp add: specSpill_def Let_def)
  show ?thesis
    unfolding eq using prim spill
    by (simp add: length_partition_rects partition_rects_nth partition_rects_total)
qed

text \<open>
  The box \<open>D\<close> has the primary group \<open>8\<close> and spills into the group \<open>7\<close>; the box \<open>C\<close>
  is in the group \<open>5\<close> only.
\<close>

theorem partition_assignment_witness:
  "length (partition_rects (map (ElementRect spillBoxes) [''D'', ''C'']) (ElementRect spillBoxes ''A'') None) = 9 \<and>
   partition_rects (map (ElementRect spillBoxes) [''D'', ''C'']) (ElementRect spillBoxes ''A'') None ! 7
     = [ElementRect spillBoxes ''D''] \<and>
   partition_rects (map (ElementRect spillBoxes) [''D'', ''C'']) (ElementRect spillBoxes ''A'') None ! 8
     = [ElementRect spillBoxes ''D''] \<and>
   partition_rects (map (ElementRect spillBoxes) [''D'', ''C'']) (ElementRect spillBoxes ''A'') None ! 5
     = [ElementRect spillBoxes ''C''] \<and>
   specPrimary (ElementRect spillBoxes ''A'') (ElementRect spillBoxes ''D'') = 8 \<and>
   specSpill (ElementRect spillBoxes ''A'') (1 / 2) (ElementRect spillBoxes ''D'') 7 \<and>
   sum_list (map length
     (partition_rects (map (ElementRect spillBoxes) [''D'', ''C'']) (ElementRect spillBoxes ''A'') None)) \<le> 6"
proof -
  let ?A = "ElementRect spillBoxes ''A''"
  let ?rs = "map (ElementRect spillBoxes) [''D'', ''C'']"
  have h: "(1 / 2 :: rat) = (case None of None \<Rightarrow> 1 / 2 | Some t \<Rightarrow> t)" by simp
  note T = partition_assignment [OF h, of ?rs ?A]
  have nth: "partition_rects ?rs ?A None ! g =
      filter (\<lambda>c. g = specPrimary ?A c \<or> specSpill ?A (1 / 2) c g) ?rs" if "g < 9" for g
    using T that by blast
  have p: "specPrimary ?A (ElementRect spillBoxes ''D'') = 8"
          "specPrimary ?A (ElementRect spillBoxes ''C'') = 5"
    by (simp_all add: specPrimary_def specRow_def specColumn_def ElementRect_def getCenter_def
        spillBoxes_def domRect_def)
  have s: "specSpill ?A (1 / 2) (ElementRect spillBoxes ''D'') 7"
          "\<not> specSpill ?A (1 / 2) (ElementRect spillBoxes ''D'') 5"
          "\<not> specSpill ?A (1 / 2) (ElementRect spillBoxes ''C'') g" for g
    unfolding specSpill_def p Let_def
    by (simp_all add: ElementRect_def getCenter_def spillBoxes_def domRect_def)
  show ?thesis
    using T nth [of 7] nth [of 8] nth [of 5] p s by simp
qed

section \<open>Properties of the elector\<close>

lemma element_ElementRect: "element (ElementRect bcr e) = e"
  by (simp add: ElementRect_def Let_def)

lemma length_insertSorted: "length (insertSorted cmp x ys) = Suc (length ys)"
  by (induction ys) simp_all

lemma length_sortStable: "length (sortStable cmp xs) = length xs"
  by (induction xs) (simp_all add: sortStable_def length_insertSorted)

lemma set_insertSorted: "set (insertSorted cmp x ys) = insert x (set ys)"
  by (induction ys) auto

lemma set_sortStable: "set (sortStable cmp xs) = set xs"
  by (induction xs) (simp_all add: sortStable_def set_insertSorted)

lemma destinationPriority_group:
  "destinationPriority ps = Some p \<Longrightarrow> group_rects p \<noteq> [] \<and> Some p \<in> set ps"
  by (induction ps rule: destinationPriority.induct) (auto split: if_splits)

text \<open>The group that \<open>prioritize\<close> returns has a first element.\<close>

lemma prioritize_not_empty: "prioritize ps = Some g \<Longrightarrow> g \<noteq> []"
proof -
  assume a: "prioritize ps = Some g"
  then obtain p where p: "destinationPriority ps = Some p"
    and g: "g = sortStable (compareBy (distanceMeters p)) (group_rects p)"
    by (auto simp add: prioritize_def split: option.splits)
  from destinationPriority_group [OF p] have "length (group_rects p) \<noteq> 0" by simp
  then have "length g \<noteq> 0" by (simp add: g length_sortStable)
  then show ?thesis by simp
qed

lemma destinationGroup_no_candidates:
  "destinationGroup bcr target direction [] config = None"
  by (cases direction)
     (simp_all add: destinationGroup_def partition_rects_def definePriorities_def prioritize_def
        Let_def)

lemma find_element:
  "map_option element (find (\<lambda>rect. element rect = t) rs) =
   (if t \<in> element ` set rs then Some t else None)"
  by (induction rs) auto

text \<open>What \<open>navigate\<close> returns, given its destination group.\<close>

lemma navigate_result:
  assumes "destinationGroup bcr target direction candidates config = Some sortedGroup"
  shows "sortedGroup \<noteq> [] \<and>
         navigate bcr target direction candidates config =
           Some (case previousFocus config of
                   None \<Rightarrow> element (hd sortedGroup)
                 | Some pf \<Rightarrow>
                     if rememberSource config \<and> pf_destination pf = target \<and>
                        pf_reverse pf = direction \<and> pf_target pf \<in> element ` set sortedGroup
                     then pf_target pf
                     else element (hd sortedGroup))"
proof -
  from assms have ne: "sortedGroup \<noteq> []"
    unfolding destinationGroup_def Let_def by (rule prioritize_not_empty)
  from assms have cs: "candidates \<noteq> []"
    using destinationGroup_no_candidates [of bcr target direction config] by auto
  from ne have first:
    "(case sortedGroup of [] \<Rightarrow> None | rect # _ \<Rightarrow> Some (element rect)) =
     Some (element (hd sortedGroup))"
    by (cases sortedGroup) simp_all
  show ?thesis
    using ne cs assms
    by (simp add: navigate_def find_element first split: option.splits)
qed

text \<open>
  An element that the comparator puts strictly before every other element of a list is
  the first element of the sorted list, wherever it stands in the list.
\<close>

lemma hd_insertSorted_sortStable:
  assumes "x \<in> set xs"
    and "\<forall>y\<in>set xs. y = x \<or> (cmp x y < 0 \<and> cmp y x > 0)"
  shows "hd (sortStable cmp xs) = x"
  using assms
proof (induction xs)
  case Nil
  then show ?case by simp
next
  case (Cons a xs)
  let ?S = "sortStable cmp xs"
  have step: "sortStable cmp (a # xs) = insertSorted cmp a ?S"
    by (simp add: sortStable_def)
  show ?case
  proof (cases "a = x")
    case True
    show ?thesis
    proof (cases ?S)
      case Nil
      with True step show ?thesis by simp
    next
      case (Cons y ys)
      then have "y \<in> set xs"
        using set_sortStable [of cmp xs] by auto
      with Cons.prems(2) have "y = x \<or> cmp x y < 0" by auto
      with True step Cons show ?thesis by auto
    qed
  next
    case False
    with Cons.prems have x: "x \<in> set xs" and a: "cmp a x > 0" by auto
    with Cons.IH Cons.prems(2) have h: "hd ?S = x" by simp
    from x have "?S \<noteq> []"
      using set_sortStable [of cmp xs] by auto
    with h obtain ys where "?S = x # ys" by (cases ?S) auto
    with a step show ?thesis by simp
  qed
qed

lemma partition_rects_Nil_nth:
  "g < 9 \<Longrightarrow> partition_rects [] ref (Some th) ! g = []"
  by (simp add: partition_rects_nth)

lemma primary_A_B: "specPrimary (ElementRect threeBoxes ''A'') (ElementRect threeBoxes ''B'') = 5"
  by code_simp

lemma primary_A_C: "specPrimary (ElementRect threeBoxes ''A'') (ElementRect threeBoxes ''C'') = 5"
  by code_simp

lemma primary_B_A: "specPrimary (ElementRect threeBoxes ''B'') (ElementRect threeBoxes ''A'') = 3"
  by code_simp

lemma primary_B_C: "specPrimary (ElementRect threeBoxes ''B'') (ElementRect threeBoxes ''C'') = 5"
  by code_simp

lemma nearer_A_B_C:
  "compareBy [nearPlumbLineIsBetter (ElementRect threeBoxes ''A''),
              topIsBetter (ElementRect threeBoxes ''A'')]
     (ElementRect threeBoxes ''B'') (ElementRect threeBoxes ''C'') < 0 \<and>
   compareBy [nearPlumbLineIsBetter (ElementRect threeBoxes ''A''),
              topIsBetter (ElementRect threeBoxes ''A'')]
     (ElementRect threeBoxes ''C'') (ElementRect threeBoxes ''B'') > 0"
  by code_simp

lemma member_5:
  "specPrimary ref c = 5 \<Longrightarrow> (g = specPrimary ref c \<or> specSpill ref th c g) = (g = 5)"
  by (auto simp add: specSpill_def Let_def)

lemma member_3:
  "specPrimary ref c = 3 \<Longrightarrow> (g = specPrimary ref c \<or> specSpill ref th c g) = (g = 3)"
  by (auto simp add: specSpill_def Let_def)

text \<open>
  Towards the right, with the default configuration and every candidate in the group
  \<open>5\<close> or \<open>3\<close> without overlap: the destination group is the group \<open>5\<close>, sorted.
\<close>

lemma destinationGroup_right:
  fixes rects :: "string element_rect list"
  assumes rects: "rects = map (ElementRect threeBoxes) candidates"
    and five: "filter (\<lambda>c. specPrimary (ElementRect threeBoxes target) c = 5) rects \<noteq> []"
    and prim: "\<forall>c\<in>set rects. specPrimary (ElementRect threeBoxes target) c = 5 \<or>
                              specPrimary (ElementRect threeBoxes target) c = 3"
  shows "destinationGroup threeBoxes target RIGHT candidates (defaultConfig :: string NavConfig) =
           Some (sortStable
                   (compareBy [nearPlumbLineIsBetter (ElementRect threeBoxes target),
                               topIsBetter (ElementRect threeBoxes target)])
                   (filter (\<lambda>c. specPrimary (ElementRect threeBoxes target) c = 5) rects))"
proof -
  let ?t = "ElementRect threeBoxes target"
  have mem: "(g = specPrimary ?t c \<or> specSpill ?t (1 / 2) c g) = (g = specPrimary ?t c)"
    if "c \<in> set rects" for c g
    using prim that member_5 [of ?t c g "1 / 2"] member_3 [of ?t c g "1 / 2"] by auto
  have groups: "partition_rects rects ?t (Some (1 / 2)) ! g =
                  filter (\<lambda>c. g = specPrimary ?t c) rects" if "g < 9" for g
    unfolding partition_rects_nth [OF that]
    by (rule filter_cong) (simp_all add: mem)
  have g4: "partition_rects rects ?t (Some (1 / 2)) ! 4 = []"
    using prim by (simp add: groups filter_empty_conv) force
  have g5: "partition_rects rects ?t (Some (1 / 2)) ! 5 =
              filter (\<lambda>c. specPrimary ?t c = 5) rects"
  proof -
    have "partition_rects rects ?t (Some (1 / 2)) ! 5 = filter (\<lambda>c. 5 = specPrimary ?t c) rects"
      by (rule groups) simp
    also have "\<dots> = filter (\<lambda>c. specPrimary ?t c = 5) rects"
      by (rule filter_cong) auto
    finally show ?thesis .
  qed
  show ?thesis
    using five
    by (simp add: destinationGroup_def Let_def rects [symmetric] defaultConfig_def
        definePriorities_def prioritize_def g4 g5 partition_rects_Nil_nth)
qed

lemma navigate_right_from_A:
  assumes "set candidates = {''B'', ''C''}"
  shows "navigate threeBoxes ''A'' RIGHT candidates (defaultConfig :: string NavConfig) = Some ''B''"
proof -
  let ?t = "ElementRect threeBoxes ''A''"
  let ?b = "ElementRect threeBoxes ''B''"
  let ?c = "ElementRect threeBoxes ''C''"
  let ?cmp = "compareBy [nearPlumbLineIsBetter ?t, topIsBetter ?t]"
  define rects where "rects = map (ElementRect threeBoxes) candidates"
  have s: "set rects = {?b, ?c}"
    using assms by (simp add: rects_def)
  have all5: "\<forall>c\<in>set rects. specPrimary ?t c = 5"
    unfolding s using primary_A_B primary_A_C by simp
  then have f: "filter (\<lambda>c. specPrimary ?t c = 5) rects = rects"
    by (simp add: filter_id_conv)
  from s have ne: "rects \<noteq> []" by auto
  have d: "destinationGroup threeBoxes ''A'' RIGHT candidates (defaultConfig :: string NavConfig) =
             Some (sortStable ?cmp rects)"
    using destinationGroup_right [of rects candidates "''A''"] all5 ne
    by (simp add: f rects_def)
  have "hd (sortStable ?cmp rects) = ?b"
  proof (rule hd_insertSorted_sortStable)
    show "?b \<in> set rects" by (simp add: s)
    show "\<forall>y\<in>set rects. y = ?b \<or> (?cmp ?b y < 0 \<and> ?cmp y ?b > 0)"
      unfolding s using nearer_A_B_C by simp
  qed
  with navigate_result [OF d] show ?thesis
    by (simp add: defaultConfig_def element_ElementRect)
qed

lemma navigate_right_from_B:
  assumes "set candidates = {''A'', ''C''}"
  shows "navigate threeBoxes ''B'' RIGHT candidates (defaultConfig :: string NavConfig) = Some ''C''"
proof -
  let ?t = "ElementRect threeBoxes ''B''"
  let ?a = "ElementRect threeBoxes ''A''"
  let ?c = "ElementRect threeBoxes ''C''"
  let ?cmp = "compareBy [nearPlumbLineIsBetter ?t, topIsBetter ?t]"
  define rects where "rects = map (ElementRect threeBoxes) candidates"
  let ?right = "filter (\<lambda>c. specPrimary ?t c = 5) rects"
  have s: "set rects = {?a, ?c}"
    using assms by (simp add: rects_def)
  have prim: "\<forall>c\<in>set rects. specPrimary ?t c = 5 \<or> specPrimary ?t c = 3"
    unfolding s using primary_B_A primary_B_C by simp
  have sr: "set ?right = {?c}"
    using s primary_B_A primary_B_C by auto
  have ne: "?right \<noteq> []"
  proof
    assume "?right = []"
    then have "set ?right = {}" by (simp only: set_empty)
    with sr show False by simp
  qed
  have d: "destinationGroup threeBoxes ''B'' RIGHT candidates (defaultConfig :: string NavConfig) =
             Some (sortStable ?cmp ?right)"
    using destinationGroup_right [of rects candidates "''B''"] prim ne
    by (simp add: rects_def)
  have "hd (sortStable ?cmp ?right) = ?c"
  proof (rule hd_insertSorted_sortStable)
    show "?c \<in> set ?right" unfolding sr by simp
    show "\<forall>y\<in>set ?right. y = ?c \<or> (?cmp ?c y < 0 \<and> ?cmp y ?c > 0)"
      unfolding sr by simp
  qed
  with navigate_result [OF d] show ?thesis
    by (simp add: defaultConfig_def element_ElementRect)
qed

subsection \<open>The row of three boxes\<close>

text \<open>
  Claim C2. With the boxes \<open>A = (0, 0, 50, 50)\<close>, \<open>B = (100, 0, 50, 50)\<close> and
  \<open>C = (200, 0, 50, 50)\<close> and the default configuration, \<open>navigate\<close> from \<open>A\<close> to the
  right elects \<open>B\<close> for every list of candidates whose elements are \<open>B\<close> and \<open>C\<close>, in
  any order, and from \<open>B\<close> to the right it elects \<open>C\<close> for every list of candidates
  whose elements are \<open>A\<close> and \<open>C\<close>.
\<close>

theorem navigate_three_boxes:
  "(\<forall>candidates. set candidates = {''B'', ''C''} \<longrightarrow>
      navigate threeBoxes ''A'' RIGHT candidates (defaultConfig :: string NavConfig) = Some ''B'') \<and>
   (\<forall>candidates. set candidates = {''A'', ''C''} \<longrightarrow>
      navigate threeBoxes ''B'' RIGHT candidates (defaultConfig :: string NavConfig) = Some ''C'')"
  using navigate_right_from_A navigate_right_from_B by blast

text \<open>The two sets of candidates in both orders.\<close>

theorem navigate_three_boxes_witness:
  "navigate threeBoxes ''A'' RIGHT [''B'', ''C''] (defaultConfig :: string NavConfig) = Some ''B'' \<and>
   navigate threeBoxes ''A'' RIGHT [''C'', ''B''] (defaultConfig :: string NavConfig) = Some ''B'' \<and>
   navigate threeBoxes ''B'' RIGHT [''A'', ''C''] (defaultConfig :: string NavConfig) = Some ''C'' \<and>
   navigate threeBoxes ''B'' RIGHT [''C'', ''A''] (defaultConfig :: string NavConfig) = Some ''C''"
proof -
  have "set [''B'', ''C''] = {''B'', ''C''}" "set [''C'', ''B''] = {''B'', ''C''}"
    "set [''A'', ''C''] = {''A'', ''C''}" "set [''C'', ''A''] = {''A'', ''C''}"
    by auto
  with navigate_three_boxes show ?thesis by blast
qed

subsection \<open>The remembered source\<close>

text \<open>
  Claim C3. Whenever \<open>navigate\<close> has a destination group (the sorted group of the
  first usable class), the group is not empty and \<open>navigate\<close> returns: the target of
  \<open>previousFocus\<close>, when \<open>rememberSource\<close> is set, \<open>previousFocus\<close> is present, its
  destination is the element navigated from, its reverse is the requested direction
  and the sorted group contains its target; and the first element of the sorted group
  in every other case.
\<close>

theorem navigate_prefers_previous_focus:
  assumes "destinationGroup bcr target direction candidates config = Some sortedGroup"
  shows "sortedGroup \<noteq> [] \<and>
         navigate bcr target direction candidates config =
           Some (case previousFocus config of
                   None \<Rightarrow> element (hd sortedGroup)
                 | Some pf \<Rightarrow>
                     if rememberSource config \<and> pf_destination pf = target \<and>
                        pf_reverse pf = direction \<and> pf_target pf \<in> element ` set sortedGroup
                     then pf_target pf
                     else element (hd sortedGroup))"
  using assms by (rule navigate_result)

text \<open>
  From \<open>C\<close> to the left the nearer box \<open>B\<close> is first in the sorted group, and the
  remembered source \<open>A\<close> is elected.
\<close>

theorem navigate_prefers_previous_focus_witness:
  "destinationGroup threeBoxes ''C'' LEFT [''A'', ''B''] cfgBack =
     Some [ElementRect threeBoxes ''B'', ElementRect threeBoxes ''A''] \<and>
   navigate threeBoxes ''C'' LEFT [''A'', ''B''] cfgBack = Some ''A'' \<and>
   navigate threeBoxes ''C'' LEFT [''A'', ''B''] (defaultConfig :: string NavConfig) = Some ''B''"
proof -
  have h: "destinationGroup threeBoxes ''C'' LEFT [''A'', ''B''] cfgBack =
     Some [ElementRect threeBoxes ''B'', ElementRect threeBoxes ''A'']"
    by code_simp
  have d: "navigate threeBoxes ''C'' LEFT [''A'', ''B''] (defaultConfig :: string NavConfig) =
     Some ''B''"
    by code_simp
  from navigate_prefers_previous_focus [OF h] h d show ?thesis
    by (simp add: cfgBack_def defaultConfig_def element_ElementRect)
qed

section \<open>Properties of the section predicates\<close>

text \<open>
  The element \<open>flat\<close> is 0 wide and 10 high: its area is zero, and \<open>isNavigable\<close>
  accepts it. The claim that an element of zero area is never navigable fails there.
\<close>

theorem isNavigable_zero_area_counterexample:
  "offsetWidth twoSections ''flat'' * offsetHeight twoSections ''flat'' = 0 \<and>
   isNavigable twoSections defaultConfig (mkSection ''s1'' ''.s1'' SELF_FIRST) (Some ''flat'') False"
  by (simp add: twoSections_def isNavigable_def mkSection_def defaultConfig_def hasAttribute_def)

text \<open>
  Claim C8, as the code has it. For every element and every section, \<open>isNavigable\<close>
  returns false whenever both \<^verbatim>\<open>offsetWidth\<close> and \<^verbatim>\<open>offsetHeight\<close> of the element are at
  most zero, and whenever the element carries the attribute \<^verbatim>\<open>disabled\<close>, whatever the
  other checks say.
\<close>

theorem isNavigable_hidden_or_disabled:
  assumes "(offsetWidth page el \<le> 0 \<and> offsetHeight page el \<le> 0) \<or> hasAttribute page el ''disabled''"
  shows "\<not> isNavigable page globalConfig sec (Some el) verifySectionSelector"
  using assms by (auto simp add: isNavigable_def)

text \<open>The element \<open>gone\<close> is 0 by 0 and the element \<open>off\<close> is disabled.\<close>

theorem isNavigable_hidden_or_disabled_witness:
  "offsetWidth twoSections ''gone'' \<le> 0 \<and> offsetHeight twoSections ''gone'' \<le> 0 \<and>
   \<not> isNavigable twoSections defaultConfig (mkSection ''s1'' ''.s1'' SELF_FIRST) (Some ''gone'') False \<and>
   hasAttribute twoSections ''off'' ''disabled'' \<and>
   \<not> isNavigable twoSections defaultConfig (mkSection ''s1'' ''.s1'' SELF_FIRST) (Some ''off'') False"
proof -
  have h1: "(offsetWidth twoSections ''gone'' \<le> 0 \<and> offsetHeight twoSections ''gone'' \<le> 0) \<or>
            hasAttribute twoSections ''gone'' ''disabled''"
    by (simp add: twoSections_def)
  have h2: "(offsetWidth twoSections ''off'' \<le> 0 \<and> offsetHeight twoSections ''off'' \<le> 0) \<or>
            hasAttribute twoSections ''off'' ''disabled''"
    by (simp add: twoSections_def hasAttribute_def)
  have g: "offsetWidth twoSections ''gone'' \<le> 0" "offsetHeight twoSections ''gone'' \<le> 0"
    by (simp_all add: twoSections_def)
  have d: "hasAttribute twoSections ''off'' ''disabled''"
    by (simp add: twoSections_def hasAttribute_def)
  from isNavigable_hidden_or_disabled
         [OF h1, of defaultConfig "mkSection ''s1'' ''.s1'' SELF_FIRST" False]
       isNavigable_hidden_or_disabled
         [OF h2, of defaultConfig "mkSection ''s1'' ''.s1'' SELF_FIRST" False] g d
  show ?thesis by simp
qed

text \<open>
  Claim C6. For every direction, \<open>gotoLeaveFor\<close> returns one of three values. With
  the entry of \<^verbatim>\<open>leaveFor\<close> for the direction resolved (the value of the entry, or what
  it returns when it is a function): for the empty string it returns \<^verbatim>\<open>undefined\<close> and
  does nothing; for a string that is not empty it returns what the focus by extended
  selector returns, true if and only if that succeeded (and it throws when that
  throws); for anything else (an element, a collection, no entry, no value) it returns
  false and does nothing.
\<close>

theorem gotoLeaveFor_three_valued:
  "(getLeaveForAt this direction = Some (SelString []) \<longrightarrow>
      gotoLeaveFor page st this direction = Some (None, st)) \<and>
   (\<forall>sel. getLeaveForAt this direction = Some (SelString sel) \<and> sel \<noteq> [] \<longrightarrow>
      (case focusExtendedSelector page st sel (Some direction) of
         None \<Rightarrow> gotoLeaveFor page st this direction = None
       | Some (ok, st1) \<Rightarrow>
           gotoLeaveFor page st this direction =
             Some (Some ok,
                   if ok \<and> onBlur this then record_action (HookOnBlur (idArg (sid this))) st1
                   else st1))) \<and>
   ((\<forall>sel. getLeaveForAt this direction \<noteq> Some (SelString sel)) \<longrightarrow>
      gotoLeaveFor page st this direction = Some (Some False, st))"
  by (auto simp add: gotoLeaveFor_def split: option.splits ExtendedSelector.splits)

text \<open>
  A function that returns the empty string; the selector of \<open>c\<close>, which takes the focus;
  a selector that selects nothing; an element; and a direction without entry.
\<close>

theorem gotoLeaveFor_three_valued_witness:
  "getLeaveForAt (leavingSection (Callback (Some (SelString [])))) RIGHT = Some (SelString []) \<and>
   gotoLeaveFor twoSections (twoSectionState SELF_FIRST ''a2'')
     (leavingSection (Callback (Some (SelString [])))) RIGHT =
     Some (None, twoSectionState SELF_FIRST ''a2'') \<and>
   map_option fst (focusExtendedSelector twoSections (twoSectionState SELF_FIRST ''a2'') ''.s2''
                     (Some RIGHT)) = Some True \<and>
   map_option fst (gotoLeaveFor twoSections (twoSectionState SELF_FIRST ''a2'')
                     (leavingSection (Plain (SelString ''.s2''))) RIGHT) = Some (Some True) \<and>
   map_option fst (focusExtendedSelector twoSections (twoSectionState SELF_FIRST ''a2'') ''.none''
                     (Some RIGHT)) = Some False \<and>
   map_option fst (gotoLeaveFor twoSections (twoSectionState SELF_FIRST ''a2'')
                     (leavingSection (Plain (SelString ''.none''))) RIGHT) = Some (Some False) \<and>
   gotoLeaveFor twoSections (twoSectionState SELF_FIRST ''a2'')
     (leavingSection (Plain (SelElement ''c''))) RIGHT =
     Some (Some False, twoSectionState SELF_FIRST ''a2'') \<and>
   gotoLeaveFor twoSections (twoSectionState SELF_FIRST ''a2'')
     (leavingSection (Plain (SelElement ''c''))) LEFT =
     Some (Some False, twoSectionState SELF_FIRST ''a2'')"
proof -
  let ?st = "twoSectionState SELF_FIRST ''a2''"
  have l1: "getLeaveForAt (leavingSection (Callback (Some (SelString [])))) RIGHT = Some (SelString [])"
    by (simp add: getLeaveForAt_def leavingSection_def)
  have l2: "getLeaveForAt (leavingSection (Plain (SelString ''.s2''))) RIGHT = Some (SelString ''.s2'')"
    "getLeaveForAt (leavingSection (Plain (SelString ''.none''))) RIGHT = Some (SelString ''.none'')"
    by (simp_all add: getLeaveForAt_def leavingSection_def)
  have l3: "getLeaveForAt (leavingSection (Plain (SelElement ''c''))) RIGHT \<noteq> Some (SelString sel)"
    "getLeaveForAt (leavingSection (Plain (SelElement ''c''))) LEFT \<noteq> Some (SelString sel)" for sel
    by (simp_all add: getLeaveForAt_def leavingSection_def)
  have f: "map_option fst (focusExtendedSelector twoSections ?st ''.s2'' (Some RIGHT)) = Some True"
    "map_option fst (focusExtendedSelector twoSections ?st ''.none'' (Some RIGHT)) = Some False"
    by code_simp+
  note T = gotoLeaveFor_three_valued [of _ RIGHT twoSections ?st]
  from T [of "leavingSection (Callback (Some (SelString [])))"] l1
  have r1: "gotoLeaveFor twoSections ?st (leavingSection (Callback (Some (SelString [])))) RIGHT =
     Some (None, ?st)" by blast
  from T [of "leavingSection (Plain (SelString ''.s2''))"] l2(1) f(1)
  have r2: "map_option fst (gotoLeaveFor twoSections ?st
                     (leavingSection (Plain (SelString ''.s2''))) RIGHT) = Some (Some True)"
    by (auto split: option.splits)
  from T [of "leavingSection (Plain (SelString ''.none''))"] l2(2) f(2)
  have r3: "map_option fst (gotoLeaveFor twoSections ?st
                     (leavingSection (Plain (SelString ''.none''))) RIGHT) = Some (Some False)"
    by (auto split: option.splits)
  from T [of "leavingSection (Plain (SelElement ''c''))"] l3(1)
  have r4: "gotoLeaveFor twoSections ?st (leavingSection (Plain (SelElement ''c''))) RIGHT =
     Some (Some False, ?st)" by blast
  from gotoLeaveFor_three_valued [of "leavingSection (Plain (SelElement ''c''))" LEFT twoSections ?st]
    l3(2)
  have r5: "gotoLeaveFor twoSections ?st (leavingSection (Plain (SelElement ''c''))) LEFT =
     Some (Some False, ?st)" by blast
  from l1 r1 f r2 r3 r4 r5 show ?thesis by simp
qed

section \<open>Properties of the focus change\<close>

subsection \<open>The steps of a focus change, as equations\<close>

lemma map_of_updateSection:
  "map_of (updateSection k f secs) j =
   (if j = k then map_option f (map_of secs k) else map_of secs j)"
  by (induction secs) auto

lemma getSectionId_Some_map_of:
  "getSectionId page secs el = Some k \<Longrightarrow> \<exists>sec. map_of secs k = Some sec"
  by (induction secs) (auto split: if_splits)

lemma beforeFocusChanged_eq:
  "beforeFocusChanged page st f n = st\<lparr>trace := trace st @ blurHooks page (sections st) f n\<rparr>"
  by (simp add: beforeFocusChanged_def blurHooks_def record_action_def Let_def split: option.splits)

lemma updateSection_absent:
  "map_of secs k = None \<Longrightarrow> updateSection k f secs = secs"
  by (induction secs) (auto split: if_splits)

lemma sectionAt_own:
  "map_of secs k = Some sec \<Longrightarrow> sectionAt secs k = OwnSection sec"
  by (simp add: sectionAt_def)

lemma sectionAt_inherited:
  "map_of secs k = None \<Longrightarrow> k \<in> set objectPrototypeKeys \<Longrightarrow> sectionAt secs k = InheritedValue"
  by (simp add: sectionAt_def)

lemma sectionAt_undefined:
  "map_of secs k = None \<Longrightarrow> k \<notin> set objectPrototypeKeys \<Longrightarrow> sectionAt secs k = UndefinedValue"
  by (simp add: sectionAt_def)

lemma lastHook_eq:
  "(case sectionAt secs l of
      OwnSection lastSec \<Rightarrow> if onBlur lastSec then record_action (HookOnBlur l) st else st
    | _ \<Rightarrow> st) =
   st\<lparr>trace := trace st @
        (case map_of secs l of
           None \<Rightarrow> []
         | Some lastSec \<Rightarrow> if onBlur lastSec then [HookOnBlur l] else [])\<rparr>"
  by (cases "map_of secs l") (simp_all add: sectionAt_def record_action_def)

lemma focusChanged_own:
  assumes "map_of (sections st) k = Some sec"
    and "truthyId (resolvedSectionId page st el sectionIdArg)"
    and "keyOf (resolvedSectionId page st el sectionIdArg) = k"
  shows "focusChanged page st el sectionIdArg =
           Some (st\<lparr>sections := updateSection k (\<lambda>s. s\<lparr>lastFocusedElement := Some el\<rparr>) (sections st),
                    trace := trace st @ changeHooks (sections st) (lastSectionId st) k,
                    lastSectionId := k\<rparr>)"
proof -
  have own: "sectionAt (sections st) k = OwnSection sec"
    using assms(1) by (rule sectionAt_own)
  have r: "truthyId (if \<not> truthy sectionIdArg then getSectionId page (sections st) el
                     else Some sectionIdArg)"
    "keyOf (if \<not> truthy sectionIdArg then getSectionId page (sections st) el
            else Some sectionIdArg) = k"
    using assms(2,3) by (simp_all add: resolvedSectionId_def)
  show ?thesis
  proof (cases "lastSectionId st = k")
    case True
    then show ?thesis
      by (simp add: focusChanged_def Let_def r own changeHooks_def)
  next
    case False
    then show ?thesis
      by (simp add: focusChanged_def Let_def r own changeHooks_def assms(1) sectionAt_def
          map_of_updateSection record_action_def split: option.splits)
  qed
qed

lemma focusChanged_eq:
  "focusChanged page st el sectionIdArg =
     (let r = resolvedSectionId page st el sectionIdArg
      in if truthyId r then
           (case sectionAt (sections st) (keyOf r) of
              UndefinedValue \<Rightarrow> None
            | _ \<Rightarrow>
                Some (st\<lparr>sections := updateSection (keyOf r) (\<lambda>s. s\<lparr>lastFocusedElement := Some el\<rparr>)
                                       (sections st),
                         trace := trace st @ changeHooks (sections st) (lastSectionId st) (keyOf r),
                         lastSectionId := keyOf r\<rparr>))
         else Some st)"
proof (cases "truthyId (resolvedSectionId page st el sectionIdArg)")
  case False
  then show ?thesis
    by (simp add: focusChanged_def resolvedSectionId_def Let_def)
next
  case True
  let ?k = "keyOf (resolvedSectionId page st el sectionIdArg)"
  have r: "truthyId (if \<not> truthy sectionIdArg then getSectionId page (sections st) el
                     else Some sectionIdArg)"
    "keyOf (if \<not> truthy sectionIdArg then getSectionId page (sections st) el
            else Some sectionIdArg) = ?k"
    using True by (simp_all add: resolvedSectionId_def)
  show ?thesis
  proof (cases "map_of (sections st) ?k")
    case (Some sec)
    from focusChanged_own [OF Some True refl] True sectionAt_own [OF Some]
    show ?thesis by (simp add: Let_def)
  next
    case None
    show ?thesis
    proof (cases "?k \<in> set objectPrototypeKeys")
      case False
      from sectionAt_undefined [OF None False] True show ?thesis
        by (simp add: focusChanged_def Let_def r)
    next
      case inh: True
      have at: "sectionAt (sections st) ?k = InheritedValue"
        using None inh by (rule sectionAt_inherited)
      have hooks: "changeHooks (sections st) (lastSectionId st) ?k =
          (if lastSectionId st \<noteq> ?k then
             (case map_of (sections st) (lastSectionId st) of
                None \<Rightarrow> []
              | Some lastSec \<Rightarrow> if onBlur lastSec then [HookOnBlur (lastSectionId st)] else [])
           else [])"
        using None by (simp add: changeHooks_def)
      show ?thesis
        using True
        by (simp add: focusChanged_def Let_def r at hooks lastHook_eq
            updateSection_absent [OF None])
    qed
  qed
qed

lemma Navigator_onBlur_guarded:
  "duringFocusChange st \<Longrightarrow> Navigator_onBlur page st target = st"
  by (simp add: Navigator_onBlur_def)

lemma Navigator_onFocus_guarded:
  "duringFocusChange st \<Longrightarrow> Navigator_onFocus page st target = Some st"
  by (simp add: Navigator_onFocus_def)

lemma elementBlur_guarded:
  "duringFocusChange st \<Longrightarrow>
   elementBlur page st el =
     st\<lparr>activeElement := (if activeElement st = Some el then None else activeElement st),
        trace := trace st @ [CallBlur el]\<rparr>"
  by (simp add: elementBlur_def record_action_def Navigator_onBlur_guarded Let_def)

lemma elementFocus_guarded:
  "duringFocusChange st \<Longrightarrow>
   elementFocus page st el =
     Some (st\<lparr>activeElement := Some el, trace := trace st @ [CallFocus el]\<rparr>)"
  by (cases "activeElement st")
     (auto simp add: elementFocus_def record_action_def Navigator_onBlur_guarded
        Navigator_onFocus_guarded Let_def)

lemma smartFocus_guarded:
  "duringFocusChange st \<Longrightarrow>
   smartFocus page st el =
     Some (if classListContains page el ''non-scrollable''
           then st\<lparr>trace := trace st @ [RequestAnimationFrame el]\<rparr>
           else st\<lparr>activeElement := Some el, trace := trace st @ [CallFocus el]\<rparr>)"
  by (simp add: smartFocus_def elementFocus_guarded record_action_def)

lemma focusChanged_guard:
  "focusChanged page st el s = Some st' \<Longrightarrow> duringFocusChange st' = duringFocusChange st"
  by (auto simp add: focusChanged_eq Let_def split: if_splits Property.splits)

lemma unfocusCurrent_guard:
  "duringFocusChange st \<Longrightarrow> duringFocusChange (snd (unfocusCurrent page st fo s))"
  by (simp add: unfocusCurrent_def fireEvent_def record_action_def elementBlur_guarded
      beforeFocusChanged_eq Let_def split: option.splits)

lemma unfocusCurrent_guarded:
  "duringFocusChange st \<Longrightarrow>
   unfocusCurrent page st fo s =
     (case fo of
        None \<Rightarrow> (True, st)
      | Some f \<Rightarrow>
          if cancelled page ''will-unfocus'' f
          then (False, st\<lparr>trace := trace st @ [Dispatch ''sn:will-unfocus'' f True]\<rparr>)
          else (True,
                st\<lparr>activeElement := (if activeElement st = Some f then None else activeElement st),
                   trace := trace st @ [Dispatch ''sn:will-unfocus'' f True, CallBlur f] @
                            blurHooks page (sections st) f s @
                            [Dispatch ''sn:unfocused'' f False]\<rparr>))"
  by (simp add: unfocusCurrent_def fireEvent_def record_action_def elementBlur_guarded
      beforeFocusChanged_eq Let_def split: option.splits)

lemma silentFocus_guarded:
  "duringFocusChange st \<Longrightarrow>
   silentFocus page st fo el s =
     focusChanged page
       (st\<lparr>activeElement :=
             (if classListContains page el ''non-scrollable''
              then (case fo of None \<Rightarrow> activeElement st
                    | Some f \<Rightarrow> if activeElement st = Some f then None else activeElement st)
              else Some el),
           trace := trace st @
             (case fo of None \<Rightarrow> [] | Some f \<Rightarrow> CallBlur f # blurHooks page (sections st) f s) @
             [if classListContains page el ''non-scrollable''
              then RequestAnimationFrame el else CallFocus el]\<rparr>)
       el s"
  by (cases fo)
     (simp_all add: silentFocus_def elementBlur_guarded beforeFocusChanged_eq smartFocus_guarded
        Let_def)

lemma blurHooks_isHook: "a \<in> set (blurHooks page secs f s) \<Longrightarrow> isHook a"
  apply (unfold blurHooks_def Let_def)
  apply (cases "truthyId (getSectionId page secs f) \<and> keyOf (getSectionId page secs f) \<noteq> s")
   apply (cases "map_of secs (keyOf (getSectionId page secs f))")
    apply simp
   apply (simp split: if_splits)
  apply simp
  done

lemma changeHooks_isHook: "a \<in> set (changeHooks secs l k) \<Longrightarrow> isHook a"
  by (cases "map_of secs l"; cases "map_of secs k") (auto simp add: changeHooks_def split: if_splits)

lemma focusChanged_trace:
  assumes "focusChanged page st el s = Some st'"
  shows "\<exists>hs. trace st' = trace st @ hs \<and> (\<forall>a\<in>set hs. isHook a)"
proof (cases "truthyId (resolvedSectionId page st el s)")
  case True
  with assms have
    "trace st' = trace st @ changeHooks (sections st) (lastSectionId st)
                              (keyOf (resolvedSectionId page st el s))"
    by (auto simp add: focusChanged_eq Let_def split: Property.splits)
  with changeHooks_isHook show ?thesis by blast
next
  case False
  with assms have "trace st' = trace st @ []"
    by (simp add: focusChanged_eq Let_def)
  then show ?thesis by (intro exI [of _ "[]"]) simp
qed

lemma sectionAt_defined:
  "map_of secs k \<noteq> None \<Longrightarrow> sectionAt secs k \<noteq> UndefinedValue"
  by (auto simp add: sectionAt_def)

lemma focusChanged_returns:
  assumes "\<not> truthy s \<or> sectionAt (sections st) s \<noteq> UndefinedValue"
  shows "focusChanged page st el s \<noteq> None"
proof (cases "truthy s")
  case True
  with assms show ?thesis
    by (auto simp add: focusChanged_eq resolvedSectionId_def keyOf_def Let_def
        split: Property.splits)
next
  case False
  show ?thesis
  proof (cases "getSectionId page (sections st) el")
    case None
    with False show ?thesis
      by (simp add: focusChanged_eq resolvedSectionId_def truthyId_def Let_def)
  next
    case (Some k)
    from getSectionId_Some_map_of [OF Some] obtain sec where "map_of (sections st) k = Some sec" ..
    then have "sectionAt (sections st) k = OwnSection sec" by (rule sectionAt_own)
    with False Some show ?thesis
      by (simp add: focusChanged_eq resolvedSectionId_def keyOf_def Let_def)
  qed
qed

lemma focusChanged_throws:
  "truthy s \<Longrightarrow> sectionAt (sections st) s = UndefinedValue \<Longrightarrow> focusChanged page st el s = None"
  by (simp add: focusChanged_eq resolvedSectionId_def keyOf_def truthyId_def Let_def)

lemma focusElement_returns:
  assumes "\<not> duringFocusChange st"
    and ok: "\<not> truthy sectionId \<or> sectionAt (sections st) sectionId \<noteq> UndefinedValue"
  shows "focusElement page st elementArg sectionId direction \<noteq> None"
proof (cases elementArg)
  case None
  then show ?thesis by (simp add: focusElement_def)
next
  case (Some el)
  let ?st0 = "st\<lparr>duringFocusChange := True\<rparr>"
  have g0: "duringFocusChange ?st0" by simp
  show ?thesis
  proof (cases "paused st")
    case True
    from ok have "silentFocus page ?st0 (activeElement st) el sectionId \<noteq> None"
      unfolding silentFocus_guarded [OF g0] by (intro focusChanged_returns) simp
    with assms Some True show ?thesis
      by (auto simp add: focusElement_def getFocusedElement_def Let_def)
  next
    case False
    have fc: "focusChanged page s el sectionId \<noteq> None" if "sections s = sections st" for s
      using ok that by (intro focusChanged_returns) simp
    show ?thesis
      using assms(1) Some False
      by (auto simp add: focusElement_def getFocusedElement_def Let_def
          unfocusCurrent_guarded fireEvent_def record_action_def smartFocus_guarded fc
          split: option.splits)
  qed
qed

lemma focusElement_guard_reset:
  assumes "\<not> duringFocusChange st"
    and "focusElement page st elementArg sectionId direction = Some (result, st')"
  shows "\<not> duringFocusChange st'"
proof (cases elementArg)
  case None
  with assms show ?thesis by (simp add: focusElement_def)
next
  case (Some el)
  let ?st0 = "st\<lparr>duringFocusChange := True\<rparr>"
  show ?thesis
  proof (cases "paused st")
    case True
    with assms Some show ?thesis
      by (auto simp add: focusElement_def Let_def split: option.splits)
  next
    case False
    obtain go st4 where u: "unfocusCurrent page ?st0 (getFocusedElement st) sectionId = (go, st4)"
      by (cases "unfocusCurrent page ?st0 (getFocusedElement st) sectionId")
    have g4: "duringFocusChange st4"
      using unfocusCurrent_guard [of ?st0 page "getFocusedElement st" sectionId] u by simp
    show ?thesis
    proof (cases go)
      case False
      with assms Some \<open>\<not> paused st\<close> u show ?thesis
        by (auto simp add: focusElement_def Let_def)
    next
      case True
      show ?thesis
      proof (cases "cancelled page ''will-focus'' el")
        case True
        with assms Some \<open>\<not> paused st\<close> u \<open>go\<close> show ?thesis
          by (auto simp add: focusElement_def Let_def fireEvent_def)
      next
        case False
        with assms Some \<open>\<not> paused st\<close> u \<open>go\<close> g4 show ?thesis
          by (auto simp add: focusElement_def Let_def fireEvent_def record_action_def
              smartFocus_guarded dest!: focusChanged_guard split: option.splits if_splits)
      qed
    qed
  qed
qed

subsection \<open>The guard\<close>

text \<open>
  Claim C10. Whenever \<open>focusElement\<close> is entered with \<open>duringFocusChange\<close> false, the
  guard is false again in the state of every return: without an element, on the silent
  path when paused, when \<^verbatim>\<open>will-unfocus\<close> or \<^verbatim>\<open>will-focus\<close> is cancelled, and on
  completion. The call does return when its section id is falsy or names a section.
\<close>

theorem focusElement_resets_guard:
  assumes "\<not> duringFocusChange st"
  shows "(\<forall>result st'. focusElement page st elementArg sectionId direction = Some (result, st') \<longrightarrow>
             \<not> duringFocusChange st') \<and>
         (\<not> truthy sectionId \<or> map_of (sections st) sectionId \<noteq> None \<longrightarrow>
            (\<exists>result st'. focusElement page st elementArg sectionId direction = Some (result, st')))"
proof -
  have "\<not> duringFocusChange st'"
    if "focusElement page st elementArg sectionId direction = Some (result, st')" for result st'
    using assms that by (rule focusElement_guard_reset)
  moreover have "\<exists>result st'. focusElement page st elementArg sectionId direction = Some (result, st')"
    if "\<not> truthy sectionId \<or> map_of (sections st) sectionId \<noteq> None"
  proof -
    from that have "\<not> truthy sectionId \<or> sectionAt (sections st) sectionId \<noteq> UndefinedValue"
      using sectionAt_defined [of "sections st" sectionId] by blast
    from focusElement_returns [OF assms this, of page elementArg direction]
    show ?thesis by auto
  qed
  ultimately show ?thesis by blast
qed

text \<open>A move from \<open>a\<close> to \<open>c\<close> completes and leaves the guard unset.\<close>

theorem focusElement_resets_guard_witness:
  "\<not> duringFocusChange (twoSectionState SELF_FIRST ''a'') \<and>
   observe (focusElement twoSections (twoSectionState SELF_FIRST ''a'') (Some ''c'') ''s2'' None) =
     Some (True,
           [Dispatch ''sn:will-unfocus'' ''a'' True, CallBlur ''a'', HookOnBlur ''s1'',
            Dispatch ''sn:unfocused'' ''a'' False,
            Dispatch ''sn:will-focus'' ''c'' True, CallFocus ''c'',
            Dispatch ''sn:focused'' ''c'' False,
            HookOnBlur ''s1'', HookOnFocus ''s2''],
           Some ''c'', False)"
proof -
  let ?st = "twoSectionState SELF_FIRST ''a''"
  have g: "\<not> duringFocusChange ?st"
    by (simp add: twoSectionState_def)
  have "map_option (\<lambda>(r, tr, ae, g). (r, tr, ae))
          (observe (focusElement twoSections ?st (Some ''c'') ''s2'' None)) =
     Some (True,
           [Dispatch ''sn:will-unfocus'' ''a'' True, CallBlur ''a'', HookOnBlur ''s1'',
            Dispatch ''sn:unfocused'' ''a'' False,
            Dispatch ''sn:will-focus'' ''c'' True, CallFocus ''c'',
            Dispatch ''sn:focused'' ''c'' False,
            HookOnBlur ''s1'', HookOnFocus ''s2''],
           Some ''c'')"
    by code_simp
  then obtain st' where r: "focusElement twoSections ?st (Some ''c'') ''s2'' None = Some (True, st')"
    and t: "trace st' = [Dispatch ''sn:will-unfocus'' ''a'' True, CallBlur ''a'', HookOnBlur ''s1'',
            Dispatch ''sn:unfocused'' ''a'' False,
            Dispatch ''sn:will-focus'' ''c'' True, CallFocus ''c'',
            Dispatch ''sn:focused'' ''c'' False,
            HookOnBlur ''s1'', HookOnFocus ''s2'']"
    and a: "activeElement st' = Some ''c''"
    by (auto simp add: observe_def)
  from focusElement_resets_guard [OF g, of twoSections "Some ''c''" "''s2''" None] r
  have "\<not> duringFocusChange st'" by blast
  with g r t a show ?thesis by (simp add: observe_def)
qed

subsection \<open>The re-entrant call\<close>

text \<open>
  A re-entrant call without an element returns false and does nothing, and a re-entrant
  call with a section id for which \<^verbatim>\<open>this.sections[sectionId]\<close> is \<^verbatim>\<open>undefined\<close>
  throws: neither returns true.
\<close>

theorem focusElement_reentrant_counterexample:
  "duringFocusChange reentrantState \<and>
   focusElement twoSections reentrantState None ''s2'' None = Some (False, reentrantState) \<and>
   focusElement twoSections reentrantState (Some ''c'') ''nowhere'' None = None"
proof -
  have g: "duringFocusChange reentrantState"
    by (simp add: reentrantState_def)
  have n: "truthy ''nowhere''" "sectionAt (sections reentrantState) ''nowhere'' = UndefinedValue"
    by (simp_all add: truthy_def reentrantState_def twoSectionState_def sectionAt_def
        objectPrototypeKeys_def)
  have "focusElement twoSections reentrantState (Some ''c'') ''nowhere'' None = None"
    using g n
    by (simp add: focusElement_def getFocusedElement_def silentFocus_guarded focusChanged_throws)
  with g show ?thesis
    by (simp add: focusElement_def)
qed

text \<open>
  Claim C9, as the code has it. A call of \<open>focusElement\<close> with an element, made while
  \<open>duringFocusChange\<close> is set, dispatches no event. When its section id is a string that
  is not empty and \<^verbatim>\<open>this.sections[sectionId]\<close> is \<^verbatim>\<open>undefined\<close> (the id is neither a
  section nor a name inherited from \<^verbatim>\<open>Object.prototype\<close>), it throws. Otherwise (the
  id is falsy, names a section, or is an inherited name such as \<^verbatim>\<open>constructor\<close>) it
  returns true, and what it adds to the trace is the \<^verbatim>\<open>blur()\<close> of the focused element
  (when there is one), the \<^verbatim>\<open>focus()\<close> of the element (or its request for an animation
  frame), and calls of section hooks; the guard stays set.
\<close>

theorem focusElement_reentrant_silent:
  assumes "duringFocusChange st"
  shows "(truthy sectionId \<and> sectionAt (sections st) sectionId = UndefinedValue \<longrightarrow>
            focusElement page st (Some el) sectionId direction = None) \<and>
         (\<not> truthy sectionId \<or> sectionAt (sections st) sectionId \<noteq> UndefinedValue \<longrightarrow>
            (\<exists>st' hooks1 hooks2.
               focusElement page st (Some el) sectionId direction = Some (True, st') \<and>
               trace st' = trace st @
                 (case activeElement st of None \<Rightarrow> [] | Some f \<Rightarrow> CallBlur f # hooks1) @
                 [if classListContains page el ''non-scrollable''
                  then RequestAnimationFrame el else CallFocus el] @ hooks2 \<and>
               (\<forall>a\<in>set (hooks1 @ hooks2). isHook a) \<and>
               (\<forall>a\<in>set (trace st'). isDispatch a \<longrightarrow> a \<in> set (trace st)) \<and>
               duringFocusChange st'))"
proof (intro conjI impI)
  assume "truthy sectionId \<and> sectionAt (sections st) sectionId = UndefinedValue"
  with assms show "focusElement page st (Some el) sectionId direction = None"
    by (simp add: focusElement_def getFocusedElement_def silentFocus_guarded focusChanged_throws)
next
  assume ok: "\<not> truthy sectionId \<or> sectionAt (sections st) sectionId \<noteq> UndefinedValue"
  let ?mid = "st\<lparr>activeElement :=
             (if classListContains page el ''non-scrollable''
              then (case activeElement st of None \<Rightarrow> activeElement st
                    | Some f \<Rightarrow> if activeElement st = Some f then None else activeElement st)
              else Some el),
           trace := trace st @
             (case activeElement st of None \<Rightarrow> []
              | Some f \<Rightarrow> CallBlur f # blurHooks page (sections st) f sectionId) @
             [if classListContains page el ''non-scrollable''
              then RequestAnimationFrame el else CallFocus el]\<rparr>"
  have sf: "silentFocus page st (activeElement st) el sectionId = focusChanged page ?mid el sectionId"
    using assms by (rule silentFocus_guarded)
  from ok have "focusChanged page ?mid el sectionId \<noteq> None"
    by (intro focusChanged_returns) simp
  then obtain st' where fc: "focusChanged page ?mid el sectionId = Some st'" by auto
  from focusChanged_trace [OF fc] obtain hs where
    hs: "trace st' = trace ?mid @ hs" "\<forall>a\<in>set hs. isHook a" by auto
  have res: "focusElement page st (Some el) sectionId direction = Some (True, st')"
    using assms sf fc by (simp add: focusElement_def getFocusedElement_def)
  have tr: "trace st' = trace st @
      (case activeElement st of None \<Rightarrow> []
       | Some f \<Rightarrow> CallBlur f # blurHooks page (sections st) f sectionId) @
      [if classListContains page el ''non-scrollable''
       then RequestAnimationFrame el else CallFocus el] @ hs"
    using hs(1) by simp
  have hooks: "\<forall>a\<in>set (blurHooks page (sections st) f sectionId @ hs). isHook a" for f
    using hs(2) blurHooks_isHook [of _ page "sections st" f sectionId] by auto
  have nodisp: "\<forall>a\<in>set (trace st'). isDispatch a \<longrightarrow> a \<in> set (trace st)"
  proof (intro ballI impI)
    fix a assume a: "a \<in> set (trace st')" "isDispatch a"
    have "\<not> isDispatch b" if "isHook b" for b :: "'a Action"
      using that by (cases b) simp_all
    with a tr hs(2) blurHooks_isHook [of a page "sections st" _ sectionId]
    show "a \<in> set (trace st)"
      by (auto split: option.splits if_splits)
  qed
  have g: "duringFocusChange st'"
    using focusChanged_guard [OF fc] assms by simp
  show "\<exists>st' hooks1 hooks2.
               focusElement page st (Some el) sectionId direction = Some (True, st') \<and>
               trace st' = trace st @
                 (case activeElement st of None \<Rightarrow> [] | Some f \<Rightarrow> CallBlur f # hooks1) @
                 [if classListContains page el ''non-scrollable''
                  then RequestAnimationFrame el else CallFocus el] @ hooks2 \<and>
               (\<forall>a\<in>set (hooks1 @ hooks2). isHook a) \<and>
               (\<forall>a\<in>set (trace st'). isDispatch a \<longrightarrow> a \<in> set (trace st)) \<and>
               duringFocusChange st'"
  proof (cases "activeElement st")
    case None
    with res tr hs(2) nodisp g show ?thesis
      by (intro exI [of _ st'] exI [of _ "[]"] exI [of _ hs]) simp
  next
    case (Some f)
    with res tr hooks [of f] nodisp g show ?thesis
      by (intro exI [of _ st'] exI [of _ "blurHooks page (sections st) f sectionId"]
          exI [of _ hs]) simp
  qed
qed

text \<open>
  Under the guard the move from \<open>a\<close> to \<open>c\<close> is silent, with the section id \<open>s2\<close> and
  with the inherited name \<^verbatim>\<open>constructor\<close> alike; the second calls the \<^verbatim>\<open>onBlur\<close> hook of
  the last active section but no \<^verbatim>\<open>onFocus\<close> hook. A section id that is no property of
  \<^verbatim>\<open>sections\<close> makes the call throw.
\<close>

theorem focusElement_reentrant_silent_witness:
  "duringFocusChange reentrantState \<and>
   observe (focusElement twoSections reentrantState (Some ''c'') ''s2'' None) =
     Some (True, [CallBlur ''a'', HookOnBlur ''s1'', CallFocus ''c'', HookOnBlur ''s1'',
                  HookOnFocus ''s2''], Some ''c'', True) \<and>
   observe (focusElement twoSections reentrantState (Some ''c'') ''constructor'' None) =
     Some (True, [CallBlur ''a'', HookOnBlur ''s1'', CallFocus ''c'', HookOnBlur ''s1''],
           Some ''c'', True) \<and>
   focusElement twoSections reentrantState (Some ''c'') ''nowhere'' None = None"
proof -
  have g: "duringFocusChange reentrantState"
    by (simp add: reentrantState_def)
  have o: "observe (focusElement twoSections reentrantState (Some ''c'') ''s2'' None) =
     Some (True, [CallBlur ''a'', HookOnBlur ''s1'', CallFocus ''c'', HookOnBlur ''s1'',
                  HookOnFocus ''s2''], Some ''c'', True)"
    by code_simp
  have c: "observe (focusElement twoSections reentrantState (Some ''c'') ''constructor'' None) =
     Some (True, [CallBlur ''a'', HookOnBlur ''s1'', CallFocus ''c'', HookOnBlur ''s1''],
           Some ''c'', True)"
    by code_simp
  have n: "truthy ''nowhere'' \<and> sectionAt (sections reentrantState) ''nowhere'' = UndefinedValue"
    by (simp add: truthy_def reentrantState_def twoSectionState_def sectionAt_def
        objectPrototypeKeys_def)
  from focusElement_reentrant_silent [OF g, of "''nowhere''" twoSections "''c''" None] n
  have "focusElement twoSections reentrantState (Some ''c'') ''nowhere'' None = None"
    by blast
  with g o c show ?thesis by simp
qed

subsection \<open>The order of events and hooks\<close>











section \<open>Properties of \<open>focusNext\<close>\<close>

text \<open>
  Claim C7. For every call of \<open>focusNext\<close> whose focused element carries the attribute
  \<^verbatim>\<open>data-sn-<direction>\<close> with the empty string as its value, the call returns false
  and changes nothing but the trace, to which it adds one entry: the event
  \<^verbatim>\<open>navigate-failed\<close>, not cancelable, on the focused element. So the focus does not
  change and \<^verbatim>\<open>will-focus\<close> is not fired.
\<close>

theorem focusNext_empty_override:
  assumes "getAttribute page focusedElement (''data-sn-'' @ directionName direction) = Some []"
  shows "focusNext page st direction focusedElement currentSectionId =
           Some (False, st\<lparr>trace := trace st @ [Dispatch ''sn:navigate-failed'' focusedElement False]\<rparr>)"
  using assms
  by (simp add: focusNext_def fireNavigateFailed_def fireEvent_def record_action_def)

text \<open>The element \<open>stop\<close> has an empty \<^verbatim>\<open>data-sn-right\<close>.\<close>

theorem focusNext_empty_override_witness:
  "getAttribute twoSections ''stop'' (''data-sn-'' @ directionName RIGHT) = Some [] \<and>
   focusNext twoSections (twoSectionState SELF_FIRST ''stop'') RIGHT ''stop'' ''s1'' =
     Some (False, (twoSectionState SELF_FIRST ''stop'')
                    \<lparr>trace := [Dispatch ''sn:navigate-failed'' ''stop'' False]\<rparr>)"
proof -
  have h: "getAttribute twoSections ''stop'' (''data-sn-'' @ directionName RIGHT) = Some []"
    by (simp add: twoSections_def)
  from focusNext_empty_override [OF h, of "twoSectionState SELF_FIRST ''stop''" "''s1''"] h
  show ?thesis by (simp add: twoSectionState_def)
qed

subsection \<open>The election under \<^verbatim>\<open>self-only\<close>\<close>

lemma partition_rects_filter:
  fixes rects :: "'e element_rect list"
  assumes "g < 9"
  shows "\<exists>P. partition_rects rects ref ta ! g = filter P rects"
proof (cases ta)
  case None
  then show ?thesis
    using partition_rects_nth [OF assms, of rects ref "1 / 2"]
    by (auto simp add: partition_rects_default)
next
  case (Some th)
  then show ?thesis
    using partition_rects_nth [OF assms, of rects ref th] by auto
qed

lemma partition_rects_subset:
  fixes rects :: "'e element_rect list"
  assumes "g < 9"
  shows "set (partition_rects rects ref ta ! g) \<subseteq> set rects"
proof -
  from partition_rects_filter [OF assms, of rects ref ta]
  obtain P where "partition_rects rects ref ta ! g = filter P rects" ..
  then show ?thesis by simp
qed

lemma definePriorities_subset:
  assumes "\<And>g. g < 9 \<Longrightarrow> set (groups ! g) \<subseteq> S"
    and "\<And>g. g < 9 \<Longrightarrow> set (internalGroups ! g) \<subseteq> S"
    and "Some p \<in> set (definePriorities targetRect direction groups internalGroups so)"
  shows "set (group_rects p) \<subseteq> S"
proof -
  have g: "set (groups ! 0) \<subseteq> S" "set (groups ! 1) \<subseteq> S" "set (groups ! 2) \<subseteq> S"
    "set (groups ! 3) \<subseteq> S" "set (groups ! 5) \<subseteq> S" "set (groups ! 6) \<subseteq> S"
    "set (groups ! 7) \<subseteq> S" "set (groups ! 8) \<subseteq> S"
    by (simp_all add: assms(1))
  have i: "set (internalGroups ! 0) \<subseteq> S" "set (internalGroups ! 1) \<subseteq> S"
    "set (internalGroups ! 2) \<subseteq> S" "set (internalGroups ! 3) \<subseteq> S"
    "set (internalGroups ! 5) \<subseteq> S" "set (internalGroups ! 6) \<subseteq> S"
    "set (internalGroups ! 7) \<subseteq> S" "set (internalGroups ! 8) \<subseteq> S"
    by (simp_all add: assms(2))
  from assms(3) show ?thesis
    using g i by (cases direction) (auto simp add: definePriorities_def split: if_splits)
qed

lemma prioritize_set:
  assumes "prioritize ps = Some g"
  shows "\<exists>p. Some p \<in> set ps \<and> set g = set (group_rects p)"
proof -
  from assms obtain p where p: "destinationPriority ps = Some p"
    and g: "g = sortStable (compareBy (distanceMeters p)) (group_rects p)"
    by (auto simp add: prioritize_def split: option.splits)
  from destinationPriority_group [OF p] g show ?thesis
    by (auto simp add: set_sortStable)
qed

lemma destinationGroup_subset:
  assumes "destinationGroup bcr target direction candidates config = Some g"
  shows "element ` set g \<subseteq> set candidates"
proof -
  let ?rects = "map (ElementRect bcr) candidates"
  let ?groups = "partition_rects ?rects (ElementRect bcr target) (straightOverlapThreshold config)"
  let ?internal = "partition_rects (?groups ! 4) (center (ElementRect bcr target))
                     (straightOverlapThreshold config)"
  from assms obtain p where
    p: "Some p \<in> set (definePriorities (ElementRect bcr target) direction ?groups ?internal
                         (straightOnly config))"
    and g: "set g = set (group_rects p)"
    unfolding destinationGroup_def Let_def by (blast dest: prioritize_set)
  have gs: "set (?groups ! k) \<subseteq> set ?rects" if "k < 9" for k
    using that by (rule partition_rects_subset)
  have "set (?internal ! k) \<subseteq> set (?groups ! 4)" if "k < 9" for k
    using that by (rule partition_rects_subset)
  with gs [of 4] have ins: "set (?internal ! k) \<subseteq> set ?rects" if "k < 9" for k
    using that by fastforce
  from definePriorities_subset [OF gs ins p] g have "set g \<subseteq> set ?rects"
    by simp
  then show ?thesis
    by (auto simp add: element_ElementRect)
qed

lemma navigate_in_candidates:
  assumes "navigate bcr target direction candidates config = Some e"
  shows "e \<in> set candidates"
proof -
  from assms obtain g where g: "destinationGroup bcr target direction candidates config = Some g"
    by (auto simp add: navigate_def split: if_splits option.splits)
  from navigate_result [OF g] assms have ne: "g \<noteq> []"
    and e: "e = (case previousFocus config of
                   None \<Rightarrow> element (hd g)
                 | Some pf \<Rightarrow>
                     if rememberSource config \<and> pf_destination pf = target \<and>
                        pf_reverse pf = direction \<and> pf_target pf \<in> element ` set g
                     then pf_target pf
                     else element (hd g))"
    by simp_all
  from ne have "element (hd g) \<in> element ` set g" by simp
  with e have "e \<in> element ` set g"
    by (auto split: option.splits if_splits)
  with destinationGroup_subset [OF g] show ?thesis by blast
qed

lemma exclude_one: "exclude xs [x] = remove1 x xs"
  by (simp add: exclude_def)

lemma map_of_navigables:
  "map_of (map (\<lambda>(k, sec). (k, f sec)) secs) k = map_option f (map_of secs k)"
  by (induction secs) auto

text \<open>
  Claim C4. For every call of \<open>focusNext\<close> whose section has the restriction
  \<^verbatim>\<open>self-only\<close> (the section's own value is the effective one), the election is
  \<open>navigate\<close> among the navigable elements of that section without the focused element.
  An element it elects is a navigable element of the section, is among the elements the
  section's selector selects, and is not the focused element; so an element that belongs
  to another section only is never elected. (\<^verbatim>\<open>querySelectorAll\<close> lists an element once.)
\<close>

theorem electNext_self_only:
  assumes sec: "map_of (sections st) currentSectionId = Some sec"
    and only: "restrict sec = SELF_ONLY"
    and dist: "distinct (querySelectorAll page (selector sec))"
  shows "electNext page st direction focusedElement currentSectionId =
           Some (navigate (getBoundingClientRect page) focusedElement direction
                   (exclude (getNavigableElements page (navigatorConfig st) sec) [focusedElement])
                   sec) \<and>
         (\<forall>e. electNext page st direction focusedElement currentSectionId = Some (Some e) \<longrightarrow>
              e \<in> set (getNavigableElements page (navigatorConfig st) sec) \<and>
              e \<in> set (querySelectorAll page (selector sec)) \<and>
              e \<noteq> focusedElement)"
proof -
  let ?navs = "getNavigableElements page (navigatorConfig st) sec"
  have eq: "electNext page st direction focusedElement currentSectionId =
           Some (navigate (getBoundingClientRect page) focusedElement direction
                   (exclude ?navs [focusedElement]) sec)"
    using sec only by (simp add: electNext_def Let_def map_of_navigables)
  have sub: "set ?navs \<subseteq> set (querySelectorAll page (selector sec))"
    by (simp add: getNavigableElements_def)
  have d: "distinct ?navs"
    using dist by (simp add: getNavigableElements_def)
  have "e \<in> set ?navs \<and> e \<in> set (querySelectorAll page (selector sec)) \<and> e \<noteq> focusedElement"
    if "electNext page st direction focusedElement currentSectionId = Some (Some e)" for e
  proof -
    from that eq have "navigate (getBoundingClientRect page) focusedElement direction
                   (exclude ?navs [focusedElement]) sec = Some e" by simp
    then have "e \<in> set (remove1 focusedElement ?navs)"
      unfolding exclude_one [symmetric] by (rule navigate_in_candidates)
    with d sub show ?thesis by auto
  qed
  with eq show ?thesis by blast
qed

text \<open>
  From \<open>a\<close> to the right \<open>a2\<close> of the same section is elected; from \<open>a2\<close> nothing is
  elected under \<^verbatim>\<open>self-only\<close>, where \<^verbatim>\<open>self-first\<close> elects \<open>c\<close> of the other section, and
  the move fails with \<^verbatim>\<open>navigate-failed\<close>.
\<close>

theorem electNext_self_only_witness:
  "restrict (mkSection ''s1'' ''.s1'' SELF_ONLY) = SELF_ONLY \<and>
   electNext twoSections (twoSectionState SELF_ONLY ''a'') RIGHT ''a'' ''s1'' = Some (Some ''a2'') \<and>
   ''a2'' \<in> set (getNavigableElements twoSections defaultConfig (mkSection ''s1'' ''.s1'' SELF_ONLY)) \<and>
   electNext twoSections (twoSectionState SELF_ONLY ''a2'') RIGHT ''a2'' ''s1'' = Some None \<and>
   electNext twoSections (twoSectionState SELF_FIRST ''a2'') RIGHT ''a2'' ''s1'' = Some (Some ''c'') \<and>
   observe (focusNext twoSections (twoSectionState SELF_ONLY ''a2'') RIGHT ''a2'' ''s1'') =
     Some (False, [Dispatch ''sn:navigate-failed'' ''a2'' False], Some ''a2'', False)"
proof -
  let ?st = "twoSectionState SELF_ONLY ''a''"
  let ?sec = "mkSection ''s1'' ''.s1'' SELF_ONLY"
  have h1: "map_of (sections ?st) ''s1'' = Some ?sec"
    by (simp add: twoSectionState_def)
  have h2: "restrict ?sec = SELF_ONLY"
    by (simp add: mkSection_def)
  have h3: "distinct (querySelectorAll twoSections (selector ?sec))"
    by (simp add: mkSection_def twoSections_def)
  have e: "electNext twoSections ?st RIGHT ''a'' ''s1'' = Some (Some ''a2'')"
    "electNext twoSections (twoSectionState SELF_ONLY ''a2'') RIGHT ''a2'' ''s1'' = Some None"
    "electNext twoSections (twoSectionState SELF_FIRST ''a2'') RIGHT ''a2'' ''s1'' = Some (Some ''c'')"
    by code_simp+
  have c: "navigatorConfig ?st = defaultConfig"
    by (simp add: twoSectionState_def)
  from electNext_self_only [OF h1 h2 h3, of RIGHT "''a''"] e(1) c
  have "''a2'' \<in> set (getNavigableElements twoSections defaultConfig ?sec)"
    by simp
  moreover
  have "observe (focusNext twoSections (twoSectionState SELF_ONLY ''a2'') RIGHT ''a2'' ''s1'') =
     Some (False, [Dispatch ''sn:navigate-failed'' ''a2'' False], Some ''a2'', False)"
    by code_simp
  ultimately show ?thesis using h2 e by simp
qed

end
